theory Spec2Isabelle
  imports Main
begin

section \<open>The byte-stream layer (stream.h)\<close>

subsection \<open>Exceptions\<close>

text \<open>
  Every exception class of the header derives from \<open>IOException\<close>; the constructor
  \<open>IOException\<close> below stands for the base class itself, with its message.  A handler
  \<^verbatim>\<open>catch(IOException &)\<close> catches all of them, \<^verbatim>\<open>catch(EOFException &)\<close> only the first.
\<close>

datatype exn =
    EOFException
  | NoStreamsLeftException
  | UTFDataFormatException
  | InvalidDataValueException string
  | IOException string

fun what :: "exn \<Rightarrow> string" where
  "what EOFException = ''IO Error : reached end of file''"
| "what NoStreamsLeftException = ''IO Error : no streams left''"
| "what UTFDataFormatException = ''IO Error : invalid UTF data''"
| "what (InvalidDataValueException m) = m"
| "what (IOException m) = m"

text \<open>The value of the macro \<open>EOF\<close> and of \<open>char_traits<char>::eof()\<close>.\<close>

definition EOF :: int where
  "EOF = - 1"

subsection \<open>Shared pointers\<close>

text \<open>
  Readers and writers are held through \<open>shared_ptr\<close>.  A store maps an address to the
  object that lives there and to the number of shared pointers that own it.  An object
  whose count is 0 has been destroyed: its destructor ran when the last owner let go.
\<close>

record 'a cell =
  obj :: 'a
  use_count :: nat

type_synonym 'a heap = "nat \<Rightarrow> 'a cell"


text \<open>
  Assigning \<open>nullptr\<close> to a shared pointer that owns the object at \<open>p\<close>: the count drops
  by one, and the destructor \<open>dtor\<close> of the object runs when it reaches 0.
\<close>

definition sp_release :: "('a \<Rightarrow> 'a) \<Rightarrow> 'a heap \<Rightarrow> nat \<Rightarrow> 'a heap" where
  "sp_release dtor h p =
     (let c = h p; n = use_count c - 1
      in h(p := \<lparr>obj = (if n = 0 then dtor (obj c) else obj c), use_count = n\<rparr>))"

subsection \<open>Reader and Writer\<close>

text \<open>
  The abstract classes, as the table of their virtual functions over the state \<open>'r\<close>
  (\<open>'w\<close>) of the object.  \<open>readByte\<close> returns the byte or raises; the object's state
  after the call is returned in both cases.  \<open>writeByte\<close> and \<open>flush\<close> return nothing or
  raise.  Implementations raise exceptions of the \<open>IOException\<close> family only.
\<close>

record 'r Reader =
  readByte :: "'r \<Rightarrow> (exn + char) \<times> 'r"
  destroyReader :: "'r \<Rightarrow> 'r"

record 'w Writer =
  writeByte :: "'w \<Rightarrow> char \<Rightarrow> (exn + unit) \<times> 'w"
  flush :: "'w \<Rightarrow> (exn + unit) \<times> 'w"
  destroyWriter :: "'w \<Rightarrow> 'w"

subsection \<open>FileReader and MemoryReader\<close>











text \<open>
  \<open>MemoryReader\<close>: the buffer, the offset and the length given to the constructor (which
  the caller promises to be at most the size of the buffer).
\<close>

record MemoryReader_state =
  mem :: string
  offset :: nat
  mr_length :: nat

definition MemoryReader_readByte :: "MemoryReader_state \<Rightarrow> (exn + char) \<times> MemoryReader_state" where
  "MemoryReader_readByte m =
     (if mr_length m \<le> offset m then (Inl EOFException, m)
      else (Inr (mem m ! offset m), m\<lparr>offset := offset m + 1\<rparr>))"

definition MemoryReader :: "MemoryReader_state Reader" where
  "MemoryReader = \<lparr>readByte = MemoryReader_readByte, destroyReader = (\<lambda>m. m)\<rparr>"

subsection \<open>StreamServerWrapper\<close>

text \<open>
  The queue of preregistered streams and the optional next server.  The next server is
  any \<open>StreamServer\<close>: its virtual \<open>accept\<close> is the parameter \<open>nextAccept\<close>, acting on the
  state \<open>'s\<close> of that server.
\<close>

record ('c, 's) StreamServerWrapper =
  streams :: "'c list"
  nextServer :: "'s option"

definition accept ::
  "('s \<Rightarrow> (exn + 'c) \<times> 's) \<Rightarrow> ('c, 's) StreamServerWrapper
     \<Rightarrow> (exn + 'c) \<times> ('c, 's) StreamServerWrapper" where
  "accept nextAccept srv =
     (case streams srv of
        [] \<Rightarrow>
          (case nextServer srv of
             None \<Rightarrow> (Inl NoStreamsLeftException, srv)
           | Some s \<Rightarrow>
               (case nextAccept s of (r, s') \<Rightarrow> (r, srv\<lparr>nextServer := Some s'\<rparr>)))
      | retval # rest \<Rightarrow> (Inr retval, srv\<lparr>streams := rest\<rparr>))"

text \<open>The results of \<open>n\<close> successive calls of \<open>accept\<close>, and the server after them.\<close>

fun acceptMany ::
  "('s \<Rightarrow> (exn + 'c) \<times> 's) \<Rightarrow> nat \<Rightarrow> ('c, 's) StreamServerWrapper
     \<Rightarrow> (exn + 'c) list \<times> ('c, 's) StreamServerWrapper" where
  "acceptMany nextAccept 0 srv = ([], srv)"
| "acceptMany nextAccept (Suc n) srv =
     (case accept nextAccept srv of
        (r, srv') \<Rightarrow>
          (case acceptMany nextAccept n srv' of (rs, srv'') \<Rightarrow> (r # rs, srv'')))"

subsection \<open>ReaderStreamBuf and WriterStreamBuf\<close>

record ReaderStreamBuf =
  rsb_reader :: "nat option"
  rsb_buffer :: char

definition ReaderStreamBuf_close :: "'r Reader \<Rightarrow> 'r heap \<Rightarrow> ReaderStreamBuf \<Rightarrow> 'r heap \<times> ReaderStreamBuf" where
  "ReaderStreamBuf_close R h sb =
     (case rsb_reader sb of
        None \<Rightarrow> (h, sb)
      | Some p \<Rightarrow> (sp_release (destroyReader R) h p, sb\<lparr>rsb_reader := None\<rparr>))"

definition getByteInternal :: "'r Reader \<Rightarrow> 'r heap \<Rightarrow> ReaderStreamBuf \<Rightarrow> int \<times> 'r heap" where
  "getByteInternal R h sb =
     (case rsb_reader sb of
        None \<Rightarrow> (EOF, h)
      | Some p \<Rightarrow>
          (case readByte R (obj (h p)) of
             (Inr b, r') \<Rightarrow> (int (of_char b), h(p := (h p)\<lparr>obj := r'\<rparr>))
           | (Inl e, r') \<Rightarrow>
               ((case e of EOFException \<Rightarrow> EOF | _ \<Rightarrow> EOF), h(p := (h p)\<lparr>obj := r'\<rparr>))))"

text \<open>
  The conversion of a \<open>char\<close> to \<open>int\<close>: where the platform's \<open>char\<close> is signed, the bytes
  from 128 on are negative.
\<close>

definition char_to_int :: "bool \<Rightarrow> char \<Rightarrow> int" where
  "char_to_int charSigned c =
     (if charSigned \<and> 128 \<le> (of_char c :: nat) then int (of_char c) - 256 else int (of_char c))"

definition underflow ::
  "bool \<Rightarrow> 'r Reader \<Rightarrow> 'r heap \<Rightarrow> ReaderStreamBuf \<Rightarrow> int \<times> 'r heap \<times> ReaderStreamBuf" where
  "underflow charSigned R h sb =
     (case getByteInternal R h sb of
        (ch, h') \<Rightarrow>
          if ch = EOF then (EOF, h', sb)
          else (let sb' = sb\<lparr>rsb_buffer := char_of ch\<rparr>
                in (char_to_int charSigned (rsb_buffer sb'), h', sb')))"

record WriterStreamBuf =
  wsb_writer :: "nat option"

definition WriterStreamBuf_close :: "'w Writer \<Rightarrow> 'w heap \<Rightarrow> WriterStreamBuf \<Rightarrow> 'w heap \<times> WriterStreamBuf" where
  "WriterStreamBuf_close W h sb =
     (case wsb_writer sb of
        None \<Rightarrow> (h, sb)
      | Some p \<Rightarrow> (sp_release (destroyWriter W) h p, sb\<lparr>wsb_writer := None\<rparr>))"

definition putByteInternal :: "'w Writer \<Rightarrow> 'w heap \<Rightarrow> WriterStreamBuf \<Rightarrow> int \<Rightarrow> int \<times> 'w heap" where
  "putByteInternal W h sb byte =
     (case wsb_writer sb of
        None \<Rightarrow> (- 1, h)
      | Some p \<Rightarrow>
          (case writeByte W (obj (h p)) (char_of (byte mod 256)) of
             (Inr u, w') \<Rightarrow> (0, h(p := (h p)\<lparr>obj := w'\<rparr>))
           | (Inl e, w') \<Rightarrow> (- 1, h(p := (h p)\<lparr>obj := w'\<rparr>))))"

definition sync :: "'w Writer \<Rightarrow> 'w heap \<Rightarrow> WriterStreamBuf \<Rightarrow> int \<times> 'w heap" where
  "sync W h sb =
     (case wsb_writer sb of
        None \<Rightarrow> (- 1, h)
      | Some p \<Rightarrow>
          (case flush W (obj (h p)) of
             (Inr u, w') \<Rightarrow> (0, h(p := (h p)\<lparr>obj := w'\<rparr>))
           | (Inl e, w') \<Rightarrow> (- 1, h(p := (h p)\<lparr>obj := w'\<rparr>))))"

definition overflow :: "'w Writer \<Rightarrow> 'w heap \<Rightarrow> WriterStreamBuf \<Rightarrow> int \<Rightarrow> int \<times> 'w heap" where
  "overflow W h sb ch = (if ch = EOF then sync W h sb else putByteInternal W h sb ch)"

subsection \<open>ReaderIStream and WriterOStream\<close>

text \<open>
  The two stream classes add the standard stream state to their buffer.  Of that state
  the program depends on whether the stream is still good: an extraction that meets the
  end of input sets \<open>eofbit\<close> and \<open>failbit\<close>, an insertion whose \<open>overflow\<close> returns \<open>EOF\<close>
  sets \<open>badbit\<close>, and neither does anything on a stream that is not good.
\<close>

record ReaderIStream =
  ris_sb :: ReaderStreamBuf
  ris_good :: bool

record WriterOStream =
  wos_sb :: WriterStreamBuf
  wos_good :: bool

text \<open>
  \<open>is.get(ch)\<close>.  The get area of \<open>ReaderStreamBuf\<close> is the single \<open>buffer\<close>, consumed by
  the call that filled it, so every call goes to \<open>underflow\<close>; when that returns \<open>eof\<close>
  the extraction fails, otherwise the character is the buffer's.
\<close>

definition istream_get ::
  "bool \<Rightarrow> 'r Reader \<Rightarrow> 'r heap \<Rightarrow> ReaderIStream \<Rightarrow> char option \<times> 'r heap \<times> ReaderIStream" where
  "istream_get charSigned R h ist =
     (if \<not> ris_good ist then (None, h, ist)
      else
        (case underflow charSigned R h (ris_sb ist) of
           (r, h', sb') \<Rightarrow>
             if r = EOF then (None, h', ist\<lparr>ris_sb := sb', ris_good := False\<rparr>)
             else (Some (rsb_buffer sb'), h', ist\<lparr>ris_sb := sb'\<rparr>)))"

definition ReaderIStream_close :: "'r Reader \<Rightarrow> 'r heap \<Rightarrow> ReaderIStream \<Rightarrow> 'r heap \<times> ReaderIStream" where
  "ReaderIStream_close R h ist =
     (case ReaderStreamBuf_close R h (ris_sb ist) of (h', sb') \<Rightarrow> (h', ist\<lparr>ris_sb := sb'\<rparr>))"

text \<open>
  \<open>os << str\<close>.  \<open>WriterStreamBuf\<close> has no put area, so every character goes to
  \<open>overflow\<close>; the first character that \<open>overflow\<close> refuses ends the insertion.
\<close>

fun put_chars :: "'w Writer \<Rightarrow> 'w heap \<Rightarrow> WriterOStream \<Rightarrow> string \<Rightarrow> 'w heap \<times> WriterOStream" where
  "put_chars W h ost [] = (h, ost)"
| "put_chars W h ost (c # cs) =
     (case overflow W h (wos_sb ost) (int (of_char c)) of
        (r, h') \<Rightarrow>
          if r = EOF then (h', ost\<lparr>wos_good := False\<rparr>) else put_chars W h' ost cs)"

definition ostream_insert :: "'w Writer \<Rightarrow> 'w heap \<Rightarrow> WriterOStream \<Rightarrow> string \<Rightarrow> 'w heap \<times> WriterOStream" where
  "ostream_insert W h ost str = (if \<not> wos_good ost then (h, ost) else put_chars W h ost str)"

definition WriterOStream_close :: "'w Writer \<Rightarrow> 'w heap \<Rightarrow> WriterOStream \<Rightarrow> 'w heap \<times> WriterOStream" where
  "WriterOStream_close W h ost =
     (case WriterStreamBuf_close W h (wos_sb ost) of (h', sb') \<Rightarrow> (h', ost\<lparr>wos_sb := sb'\<rparr>))"

section \<open>The request handler (main.cpp)\<close>

subsection \<open>The functions of std::string that the handler calls\<close>

abbreviation NL :: char where
  "NL \<equiv> CHR 0x0A"

fun index_of :: "string \<Rightarrow> char \<Rightarrow> nat option" where
  "index_of [] c = None"
| "index_of (x # xs) c = (if x = c then Some 0 else map_option Suc (index_of xs c))"

text \<open>\<open>s.find_first_of(c, pos)\<close>, with \<open>None\<close> for \<open>npos\<close>.\<close>

definition find_first_of :: "string \<Rightarrow> char \<Rightarrow> nat \<Rightarrow> nat option" where
  "find_first_of s c pos = map_option (\<lambda>i. pos + i) (index_of (drop pos s) c)"

text \<open>
  \<open>s.substr(pos, n)\<close> and \<open>s.substr(pos)\<close>.  The handler calls them with \<open>pos\<close> at most the
  size of \<open>s\<close> (lemma \<open>find_first_of_less\<close> below), where they do not raise.
\<close>

definition substr :: "string \<Rightarrow> nat \<Rightarrow> nat \<Rightarrow> string" where
  "substr s pos n = take n (drop pos s)"

definition substr_from :: "string \<Rightarrow> nat \<Rightarrow> string" where
  "substr_from s pos = drop pos s"

subsection \<open>Configuration, the big-number library and the platform\<close>

text \<open>The globals of main.cpp that the handler reads.\<close>

record config =
  decryptionModulus :: nat
  decryptionExponent :: nat
  useInfoMessages :: bool

definition randomBitCount :: nat where
  "randomBitCount = 64"

definition checkSumModulus :: nat where
  "checkSumModulus = 8191"

text \<open>
  bigmath.h is not among the sources.  \<open>BigUnsigned\<close> is an unsigned integer of any size,
  a \<open>nat\<close>.  The three functions below are parameters of the handler; each returns its
  result or raises a \<open>std::exception\<close>, given by its \<open>what()\<close> text.
\<close>

record bigmath =
  parseBase64 :: "string \<Rightarrow> string + nat"
  powMod :: "nat \<Rightarrow> nat \<Rightarrow> nat \<Rightarrow> string + nat"
  toByteString :: "nat \<Rightarrow> string + string"

text \<open>
  Modelled from the spec: \<open>BigUnsigned::divMod(a, b, q, r)\<close> of bigmath.h, the
  division with remainder that splits \<open>a\<close> into the quotient \<open>q\<close> and the remainder \<open>r\<close>
  by \<open>b\<close>.  The other operators of \<open>BigUnsigned\<close> that the handler uses are taken in the same
  way, as the operations on numbers that they denote: \<open>%\<close> is the remainder, \<open>>>=\<close> drops
  low bits, \<open>!=\<close> compares the values.
\<close>

definition divMod :: "nat \<Rightarrow> nat \<Rightarrow> nat \<times> nat" where
  "divMod a b = (a div b, a mod b)"

text \<open>
  What the handler takes from the platform: whether \<open>char\<close> is signed, the value of the
  \<open>k\<close>-th call of \<open>time(NULL)\<close> during the run (counted from 0) and the text that
  \<open>strftime\<close> with the format \<open>%c\<close> leaves in the buffer for the local time of a \<open>time_t\<close>.
\<close>

record platform =
  charSigned :: bool
  time_NULL :: "nat \<Rightarrow> int"
  strftime_c :: "int \<Rightarrow> string"

subsection \<open>Extraction of a hexadecimal time_t\<close>

text \<open>
  \<open>is >> hex >> t\<close> on an \<open>istringstream\<close> over \<open>field\<close>, for the 64-bit signed \<open>time_t\<close>,
  as the C++11 library defines it.  The extraction skips white space; at the end of the
  input it fails before it stores anything, and \<open>t\<close> keeps its value.  Otherwise it reads
  an optional sign, an optional \<open>0x\<close> or \<open>0X\<close> and the longest run of hexadecimal
  digits, and stores the value: 0 when there is no digit to convert, the largest or
  smallest \<open>time_t\<close> when the value does not fit.
\<close>

definition isspace :: "char \<Rightarrow> bool" where
  "isspace c = (c = CHR '' '' \<or> (9 \<le> (of_char c :: nat) \<and> (of_char c :: nat) \<le> 13))"

definition hexDigit :: "char \<Rightarrow> nat option" where
  "hexDigit c =
     (let n = (of_char c :: nat)
      in if 48 \<le> n \<and> n \<le> 57 then Some (n - 48)
         else if 97 \<le> n \<and> n \<le> 102 then Some (n - 87)
         else if 65 \<le> n \<and> n \<le> 70 then Some (n - 55)
         else None)"

fun hexValue :: "nat \<Rightarrow> string \<Rightarrow> nat" where
  "hexValue acc [] = acc"
| "hexValue acc (c # cs) =
     (case hexDigit c of None \<Rightarrow> acc | Some d \<Rightarrow> hexValue (16 * acc + d) cs)"

definition TIME_MAX :: int where
  "TIME_MAX = 2 ^ 63 - 1"

definition TIME_MIN :: int where
  "TIME_MIN = - (2 ^ 63)"

definition splitSign :: "string \<Rightarrow> bool \<times> string" where
  "splitSign s =
     (case s of
        [] \<Rightarrow> (False, s)
      | c # r \<Rightarrow>
          if c = CHR ''-'' then (True, r) else if c = CHR ''+'' then (False, r) else (False, s))"

definition skipHexPrefix :: "string \<Rightarrow> string" where
  "skipHexPrefix s =
     (case s of
        c # x # r \<Rightarrow> if c = CHR ''0'' \<and> (x = CHR ''x'' \<or> x = CHR ''X'') then r else s
      | _ \<Rightarrow> s)"

definition extractHex :: "string \<Rightarrow> int \<Rightarrow> int" where
  "extractHex field t =
     (let s = dropWhile isspace field
      in if s = [] then t
         else
           (case splitSign s of
              (negative, r) \<Rightarrow>
                (let v = int (hexValue 0 (skipHexPrefix r))
                 in if negative then (if - TIME_MIN < v then TIME_MIN else - v)
                    else (if TIME_MAX < v then TIME_MAX else v))))"

subsection \<open>connectionHandler\<close>

record ('r, 'w) hstate =
  rheap :: "'r heap"
  wheap :: "'w heap"
  istr :: ReaderIStream
  ostr :: WriterOStream
  messages :: string

text \<open>The loop \<^verbatim>\<open>while(is.get(ch)) msg += ch;\<close>  It runs until an extraction fails.\<close>

partial_function (option) readLoop ::
  "bool \<Rightarrow> 'r Reader \<Rightarrow> 'r heap \<Rightarrow> ReaderIStream \<Rightarrow> string \<Rightarrow> (string \<times> 'r heap \<times> ReaderIStream) option" where
  "readLoop cs R h ist msg =
     (case istream_get cs R h ist of
        (None, h', ist') \<Rightarrow> Some (msg, h', ist')
      | (Some ch, h', ist') \<Rightarrow> readLoop cs R h' ist' (msg @ [ch]))"

definition os_insert :: "'w Writer \<Rightarrow> ('r, 'w) hstate \<Rightarrow> string \<Rightarrow> ('r, 'w) hstate" where
  "os_insert W s str =
     (case ostream_insert W (wheap s) (ostr s) str of (h', ost') \<Rightarrow> s\<lparr>wheap := h', ostr := ost'\<rparr>)"

definition os_close :: "'w Writer \<Rightarrow> ('r, 'w) hstate \<Rightarrow> ('r, 'w) hstate" where
  "os_close W s =
     (case WriterOStream_close W (wheap s) (ostr s) of (h', ost') \<Rightarrow> s\<lparr>wheap := h', ostr := ost'\<rparr>)"

text \<open>The three statements of every rejecting branch: the message, the byte 0, return.\<close>

definition reject :: "'w Writer \<Rightarrow> ('r, 'w) hstate \<Rightarrow> string \<Rightarrow> ('r, 'w) hstate" where
  "reject W s line = os_insert W (s\<lparr>messages := messages s @ line\<rparr>) ''0''"

text \<open>
  The body of the decryption loop for one block, up to the bytes it appends to the
  plain text.  An exception leaves by \<open>Inl\<close> with its \<open>what()\<close> text.
\<close>

definition decryptBlock :: "bigmath \<Rightarrow> config \<Rightarrow> string \<Rightarrow> string + string" where
  "decryptBlock L C block =
     (case parseBase64 L block of
        Inl e \<Rightarrow> Inl e
      | Inr v0 \<Rightarrow>
          (case powMod L v0 (decryptionExponent C) (decryptionModulus C) of
             Inl e \<Rightarrow> Inl e
           | Inr v1 \<Rightarrow>
               (case divMod v1 checkSumModulus of
                  (v, checkSum) \<Rightarrow>
                    if checkSum \<noteq> v mod checkSumModulus then Inl ''checksum doesn't match''
                    else toByteString L (drop_bit randomBitCount v))))"

function decryptLoop ::
  "bigmath \<Rightarrow> config \<Rightarrow> string \<Rightarrow> nat \<Rightarrow> nat option \<Rightarrow> string \<Rightarrow> string + string" where
  "decryptLoop L C msg location newLineIndex unencrypted =
     (case newLineIndex of
        None \<Rightarrow> Inr unencrypted
      | Some nl \<Rightarrow>
          (case decryptBlock L C (substr msg location (nl - location)) of
             Inl e \<Rightarrow> Inl e
           | Inr bytes \<Rightarrow>
               decryptLoop L C msg (nl + 1) (find_first_of msg NL (nl + 1)) (unencrypted @ bytes)))"
  by pat_completeness auto

lemma index_of_less: "index_of xs c = Some i \<Longrightarrow> i < length xs"
  by (induction xs arbitrary: i) (auto split: if_splits)

lemma find_first_of_less:
  "find_first_of s c pos = Some i \<Longrightarrow> pos \<le> i \<and> i < length s"
  by (auto simp: find_first_of_def dest!: index_of_less)

termination decryptLoop
  by (relation "measure (\<lambda>(L, C, msg, location, newLineIndex, unencrypted).
        case newLineIndex of None \<Rightarrow> 0 | Some i \<Rightarrow> Suc (Suc (length msg) - i))")
     (auto split: option.splits dest!: find_first_of_less)

declare decryptLoop.simps [simp del]

text \<open>
  The loop that cuts the rest of the body into the event lines; every line is paired
  with the time 0, as the handler does.
\<close>

function splitParts :: "string \<Rightarrow> (int \<times> string) list" where
  "splitParts msg =
     (if msg = [] then []
      else
        (case find_first_of msg NL 0 of
           None \<Rightarrow> [(0, msg)]
         | Some newLinePos \<Rightarrow>
             (0, substr msg 0 newLinePos) # splitParts (substr_from msg (newLinePos + 1))))"
  by pat_completeness auto
termination
  by (relation "measure length") (auto simp: substr_from_def)

declare splitParts.simps [simp del]

text \<open>
  The second loop, over the parts: the \<open>k\<close>-th part reads the clock, and a part with a
  space is cut at the first one, the text before it going through the extraction.
\<close>

definition stampPart :: "platform \<Rightarrow> nat \<Rightarrow> int \<times> string \<Rightarrow> int \<times> string" where
  "stampPart E k part =
     (let t = time_NULL E k; str = snd part
      in case find_first_of str (CHR '' '') 0 of
           None \<Rightarrow> (t, str)
         | Some splitPos \<Rightarrow>
             (extractHex (substr str 0 splitPos) t, substr_from str (splitPos + 1)))"

fun stampParts :: "platform \<Rightarrow> nat \<Rightarrow> (int \<times> string) list \<Rightarrow> (int \<times> string) list" where
  "stampParts E k [] = []"
| "stampParts E k (part # parts) = stampPart E k part # stampParts E (Suc k) parts"

text \<open>The third loop: one line of the log for every part.\<close>

definition eventLine :: "platform \<Rightarrow> string \<Rightarrow> int \<times> string \<Rightarrow> string" where
  "eventLine E deviceName part =
     ''Event : '' @ deviceName @ '' : '' @ strftime_c E (fst part) @ '' : '' @ snd part @ [NL]"

fun emitMessages :: "platform \<Rightarrow> string \<Rightarrow> (int \<times> string) list \<Rightarrow> string \<Rightarrow> string" where
  "emitMessages E deviceName [] msgs = msgs"
| "emitMessages E deviceName (part # parts) msgs =
     emitMessages E deviceName parts (msgs @ eventLine E deviceName part)"

text \<open>The statistics line: the first line of the rest, when the rest has a line break.\<close>

definition parseStats :: "string \<Rightarrow> string \<times> string" where
  "parseStats msg =
     (case find_first_of msg NL 0 of
        None \<Rightarrow> ([], msg)
      | Some statsStringLength \<Rightarrow>
          (substr msg 0 statsStringLength, substr_from msg (statsStringLength + 1)))"

text \<open>The handler from the search for the device name on (lines 81 to 132).\<close>

definition parseBody ::
  "platform \<Rightarrow> config \<Rightarrow> 'w Writer \<Rightarrow> ('r, 'w) hstate \<Rightarrow> string \<Rightarrow> ('r, 'w) hstate" where
  "parseBody E C W s msg =
     (case find_first_of msg NL 0 of
        None \<Rightarrow> reject W s (''Error : can't find device name'' @ [NL])
      | Some deviceNameLength \<Rightarrow>
          (let deviceName = substr msg 0 deviceNameLength;
               msg1 = substr_from msg (deviceNameLength + 1);
               s1 = (if useInfoMessages C
                     then s\<lparr>messages := messages s @ ''Info : '' @ deviceName @ '' : syncing'' @ [NL]\<rparr>
                     else s);
               s2 = os_insert W s1 ''1'';
               s3 = os_close W s2
           in case parseStats msg1 of
                (statsString, msg2) \<Rightarrow>
                  (let parts = stampParts E 0 (splitParts msg2)
                   in s3\<lparr>messages := emitMessages E deviceName parts (messages s3)\<rparr>)))"

text \<open>The handler after the request has been read and the input stream closed.\<close>

definition handleRequest ::
  "bigmath \<Rightarrow> platform \<Rightarrow> config \<Rightarrow> 'w Writer \<Rightarrow> ('r, 'w) hstate \<Rightarrow> string \<Rightarrow> ('r, 'w) hstate" where
  "handleRequest L E C W s msg =
     (if length msg < 1 then reject W s (''Error : Invalid request'' @ [NL])
      else if msg ! 0 = CHR ''0'' then
        (let msg1 = substr_from msg 1
         in if decryptionModulus C \<noteq> 0
            then reject W s (''Error : unencrypted message attempted'' @ [NL])
            else parseBody E C W s msg1)
      else if msg ! 0 = CHR ''1'' then
        (let msg1 = substr_from msg 1
         in case decryptLoop L C msg1 0 (find_first_of msg1 NL 0) [] of
              Inl e \<Rightarrow> reject W s (''Error : '' @ e @ [NL])
            | Inr unencrypted \<Rightarrow> parseBody E C W s unencrypted)
      else reject W s (''Error : Invalid encryption type'' @ [NL]))"

definition is_close :: "'r Reader \<Rightarrow> ('r, 'w) hstate \<Rightarrow> ('r, 'w) hstate" where
  "is_close R s =
     (case ReaderIStream_close R (rheap s) (istr s) of (h', ist') \<Rightarrow> s\<lparr>rheap := h', istr := ist'\<rparr>)"

text \<open>
  \<open>connectionHandler\<close>: \<open>None\<close> when the reader never stops delivering bytes, so that the
  first loop does not end.
\<close>

definition connectionHandler ::
  "bigmath \<Rightarrow> platform \<Rightarrow> config \<Rightarrow> 'r Reader \<Rightarrow> 'w Writer \<Rightarrow> ('r, 'w) hstate
     \<Rightarrow> ('r, 'w) hstate option" where
  "connectionHandler L E C R W s =
     (case readLoop (charSigned E) R (rheap s) (istr s) [] of
        None \<Rightarrow> None
      | Some (msg, h', ist') \<Rightarrow>
          Some (handleRequest L E C W (is_close R (s\<lparr>rheap := h', istr := ist'\<rparr>)) msg))"

section \<open>Notions of the specification\<close>

text \<open>A text without a line break, and the text made of lines, each with its line break.\<close>

definition lineFree :: "string \<Rightarrow> bool" where
  "lineFree s = (NL \<notin> set s)"

definition withNL :: "string list \<Rightarrow> string" where
  "withNL ls = concat (map (\<lambda>l. l @ [NL]) ls)"

text \<open>The blocks of an encrypted request, decrypted in order: the first failure ends it.\<close>

fun decryptBlocks :: "bigmath \<Rightarrow> config \<Rightarrow> string list \<Rightarrow> string \<Rightarrow> string + string" where
  "decryptBlocks L C [] acc = Inr acc"
| "decryptBlocks L C (b # bs) acc =
     (case decryptBlock L C b of Inl e \<Rightarrow> Inl e | Inr bytes \<Rightarrow> decryptBlocks L C bs (acc @ bytes))"

text \<open>The store after one call \<open>writeByte(c)\<close> on the writer at \<open>p\<close>.\<close>

definition wroteByte :: "'w Writer \<Rightarrow> 'w heap \<Rightarrow> nat \<Rightarrow> char \<Rightarrow> 'w heap" where
  "wroteByte W h p c = h(p := (h p)\<lparr>obj := snd (writeByte W (obj (h p)) c)\<rparr>)"

text \<open>The line that \<open>useInfoMessages\<close> adds for an accepted request.\<close>

definition infoLine :: "config \<Rightarrow> string \<Rightarrow> string" where
  "infoLine C D = (if useInfoMessages C then ''Info : '' @ D @ '' : syncing'' @ [NL] else [])"

text \<open>
  A run from \<open>s\<close> to \<open>s'\<close> rejects with a reason: one line \<open>Error : reason\<close> is added to the
  messages, and all that happens to the output stream is the insertion of the text \<open>0\<close>.
\<close>

definition rejectsWith :: "'w Writer \<Rightarrow> ('r, 'w) hstate \<Rightarrow> ('r, 'w) hstate \<Rightarrow> string \<Rightarrow> bool" where
  "rejectsWith W s s' reason =
     (messages s' = messages s @ ''Error : '' @ reason @ [NL] \<and>
      (wheap s', ostr s') = ostream_insert W (wheap s) (ostr s) ''0'')"

text \<open>
  A block passes the verification: it decodes, the modular exponentiation returns, and
  the remainder by the checksum modulus equals the quotient taken modulo the checksum
  modulus, which is what the handler compares it with.
\<close>

definition verified :: "bigmath \<Rightarrow> config \<Rightarrow> string \<Rightarrow> bool" where
  "verified L C block =
     (case parseBase64 L block of
        Inl e \<Rightarrow> False
      | Inr v \<Rightarrow>
          (case powMod L v (decryptionExponent C) (decryptionModulus C) of
             Inl e \<Rightarrow> False
           | Inr x \<Rightarrow> x mod checkSumModulus = (x div checkSumModulus) mod checkSumModulus))"

text \<open>
  A run from \<open>s\<close> to \<open>s'\<close> accepts with some lines: the lines are added to the messages, and
  all that happens to the output stream is the insertion of the text \<open>1\<close> and then \<open>close\<close>.
\<close>

definition acceptsWith :: "'w Writer \<Rightarrow> ('r, 'w) hstate \<Rightarrow> ('r, 'w) hstate \<Rightarrow> string \<Rightarrow> bool" where
  "acceptsWith W s s' lines =
     (messages s' = messages s @ lines \<and>
      (wheap s', ostr s') =
        (case ostream_insert W (wheap s) (ostr s) ''1'' of (h, ost) \<Rightarrow> WriterOStream_close W h ost))"



text \<open>A line that begins with a field of hexadecimal digits and a space.\<close>

definition hasHexTimestamp :: "string \<Rightarrow> bool" where
  "hasHexTimestamp line =
     (case find_first_of line (CHR '' '') 0 of
        None \<Rightarrow> False
      | Some i \<Rightarrow> 0 < i \<and> list_all (\<lambda>c. hexDigit c \<noteq> None) (take i line))"

text \<open>The results of \<open>n\<close> successive calls of the next server's \<open>accept\<close>.\<close>

fun callMany :: "('s \<Rightarrow> (exn + 'c) \<times> 's) \<Rightarrow> nat \<Rightarrow> 's \<Rightarrow> (exn + 'c) list \<times> 's" where
  "callMany f 0 s = ([], s)"
| "callMany f (Suc n) s =
     (case f s of (r, s') \<Rightarrow> (case callMany f n s' of (rs, s'') \<Rightarrow> (r # rs, s'')))"

section \<open>Sample values\<close>

text \<open>
  A writer that keeps the bytes it is given, a request held by a \<open>MemoryReader\<close>, a
  platform that prints a time as its decimal number of seconds, a stand-in for bigmath.h
  that reads a block as a hexadecimal number, and a configuration without and with a key.
\<close>

definition bufferWriter :: "string Writer" where
  "bufferWriter =
     \<lparr>writeByte = (\<lambda>w c. (Inr (), w @ [c])), flush = (\<lambda>w. (Inr (), w)), destroyWriter = (\<lambda>w. w)\<rparr>"

definition sampleState :: "string \<Rightarrow> (MemoryReader_state, string) hstate" where
  "sampleState req =
     \<lparr>rheap = (\<lambda>p. \<lparr>obj = \<lparr>mem = req, offset = 0, mr_length = length req\<rparr>,
                      use_count = (if p = 0 then 1 else 0)\<rparr>),
      wheap = (\<lambda>p. \<lparr>obj = [], use_count = (if p = 0 then 2 else 0)\<rparr>),
      istr = \<lparr>ris_sb = \<lparr>rsb_reader = Some 0, rsb_buffer = CHR 0x00\<rparr>, ris_good = True\<rparr>,
      ostr = \<lparr>wos_sb = \<lparr>wsb_writer = Some 0\<rparr>, wos_good = True\<rparr>,
      messages = []\<rparr>"

fun showNat :: "nat \<Rightarrow> string" where
  "showNat n =
     (if n < 10 then [char_of (48 + n)] else showNat (n div 10) @ [char_of (48 + n mod 10)])"

declare showNat.simps [simp del]

fun natBytes :: "nat \<Rightarrow> string" where
  "natBytes n = (if n = 0 then [] else natBytes (n div 256) @ [char_of (n mod 256)])"

declare natBytes.simps [simp del]

definition sampleFormat :: "int \<Rightarrow> string" where
  "sampleFormat t = showNat (nat t)"

definition samplePlatform :: platform where
  "samplePlatform =
     \<lparr>charSigned = True, time_NULL = (\<lambda>k. 1700000000 + int k), strftime_c = sampleFormat\<rparr>"

definition sampleLib :: bigmath where
  "sampleLib =
     \<lparr>parseBase64 = (\<lambda>b. if b \<noteq> [] \<and> list_all (\<lambda>c. hexDigit c \<noteq> None) b
                          then Inr (hexValue 0 b) else Inl ''invalid character''),
      powMod = (\<lambda>v e m. if m = 0 then Inl ''division by zero'' else Inr (v ^ e mod m)),
      toByteString = (\<lambda>n. Inr (natBytes n))\<rparr>"

definition plainConfig :: config where
  "plainConfig = \<lparr>decryptionModulus = 0, decryptionExponent = 0, useInfoMessages = False\<rparr>"

definition keyConfig :: config where
  "keyConfig = \<lparr>decryptionModulus = 2 ^ 256, decryptionExponent = 1, useInfoMessages = False\<rparr>"

definition sampleEncrypted :: string where
  "sampleEncrypted = ''1c8c4a5aae6789abcdf012222a'' @ [NL] @ ''effac6789abcdf0122e1a'' @ [NL]"












section \<open>Lemmas\<close>

lemma index_of_notin: "c \<notin> set xs \<Longrightarrow> index_of xs c = None"
  by (induction xs) auto

lemma index_of_append: "c \<notin> set a \<Longrightarrow> index_of (a @ c # b) c = Some (length a)"
  by (induction a) auto

lemma find_first_of_none: "c \<notin> set (drop pos s) \<Longrightarrow> find_first_of s c pos = None"
  by (simp add: find_first_of_def index_of_notin)

lemma find_first_of_at:
  "c \<notin> set a \<Longrightarrow> find_first_of (pre @ a @ c # b) c (length pre) = Some (length pre + length a)"
  by (simp add: find_first_of_def index_of_append)

lemma find_first_of_0: "c \<notin> set a \<Longrightarrow> find_first_of (a @ c # b) c 0 = Some (length a)"
  using find_first_of_at [of c a "[]" b] by simp

lemma find_first_of_0_none: "c \<notin> set s \<Longrightarrow> find_first_of s c 0 = None"
  by (simp add: find_first_of_none)

lemma withNL_Cons: "withNL (l # ls) = l @ NL # withNL ls"
  by (simp add: withNL_def)

lemma withNL_Nil: "withNL [] = []"
  by (simp add: withNL_def)



lemma decryptLoop_None: "decryptLoop L C msg location None acc = Inr acc"
  by (subst decryptLoop.simps) simp



lemma emitMessages_concat:
  "emitMessages E D parts msgs = msgs @ concat (map (eventLine E D) parts)"
  by (induction parts arbitrary: msgs) auto



lemma decryptLoop_blocks:
  "list_all lineFree bs \<Longrightarrow> lineFree tr \<Longrightarrow>
   decryptLoop L C (pre @ withNL bs @ tr) (length pre)
     (find_first_of (pre @ withNL bs @ tr) NL (length pre)) acc = decryptBlocks L C bs acc"
proof (induction bs arbitrary: pre acc)
  case Nil
  then show ?case
    by (simp add: withNL_Nil lineFree_def find_first_of_none decryptLoop_None)
next
  case (Cons b bs)
  then have b: "NL \<notin> set b" by (simp add: lineFree_def)
  let ?msg = "pre @ withNL (b # bs) @ tr"
  have nl: "find_first_of ?msg NL (length pre) = Some (length pre + length b)"
    using find_first_of_at [OF b, of pre "withNL bs @ tr"] by (simp add: withNL_Cons)
  have blk: "substr ?msg (length pre) (length b) = b"
    by (simp add: substr_def withNL_Cons)
  have ih: "decryptLoop L C ?msg (Suc (length pre + length b))
              (find_first_of ?msg NL (Suc (length pre + length b))) acc' = decryptBlocks L C bs acc'" for acc'
    using Cons.IH [of "pre @ b @ [NL]" acc'] Cons.prems by (simp add: withNL_Cons)
  show ?case
    by (subst decryptLoop.simps) (simp add: nl blk ih split: sum.splits)
qed

lemma istream_get_MemoryReader_byte:
  assumes "ris_good ist" "rsb_reader (ris_sb ist) = Some p" "obj (h p) = m"
    and "offset m < mr_length m" "char_to_int cs (mem m ! offset m) \<noteq> EOF"
  shows "istream_get cs MemoryReader h ist =
           (Some (mem m ! offset m), h(p := (h p)\<lparr>obj := m\<lparr>offset := Suc (offset m)\<rparr>\<rparr>),
            ist\<lparr>ris_sb := (ris_sb ist)\<lparr>rsb_buffer := mem m ! offset m\<rparr>\<rparr>)"
  using assms
  by (simp add: istream_get_def underflow_def getByteInternal_def MemoryReader_def
      MemoryReader_readByte_def EOF_def Let_def)

lemma istream_get_MemoryReader_eof:
  assumes "ris_good ist" "rsb_reader (ris_sb ist) = Some p" "obj (h p) = m"
    and "mr_length m \<le> offset m"
  shows "istream_get cs MemoryReader h ist = (None, h, ist\<lparr>ris_good := False\<rparr>)"
  using assms
  by (auto simp: istream_get_def underflow_def getByteInternal_def MemoryReader_def
      MemoryReader_readByte_def EOF_def Let_def)

lemma readLoop_MemoryReader:
  assumes "ris_good ist" "rsb_reader (ris_sb ist) = Some p" "obj (h p) = m"
    and "offset m \<le> mr_length m" "mr_length m \<le> length (mem m)"
    and "list_all (\<lambda>c. char_to_int cs c \<noteq> EOF) (take (mr_length m - offset m) (drop (offset m) (mem m)))"
  shows "readLoop cs MemoryReader h ist msg =
           Some (msg @ take (mr_length m - offset m) (drop (offset m) (mem m)),
                 h(p := (h p)\<lparr>obj := m\<lparr>offset := mr_length m\<rparr>\<rparr>),
                 ist\<lparr>ris_sb := (ris_sb ist)\<lparr>rsb_buffer :=
                        last (rsb_buffer (ris_sb ist) # take (mr_length m - offset m) (drop (offset m) (mem m)))\<rparr>,
                     ris_good := False\<rparr>)"
  using assms
proof (induction "mr_length m - offset m" arbitrary: m h ist msg)
  case 0
  then have eq: "offset m = mr_length m" by simp
  have "istream_get cs MemoryReader h ist = (None, h, ist\<lparr>ris_good := False\<rparr>)"
    using 0 by (intro istream_get_MemoryReader_eof [where m = m]) simp_all
  moreover have "h(p := (h p)\<lparr>obj := m\<lparr>offset := mr_length m\<rparr>\<rparr>) = h"
    using 0(4) eq [symmetric] by (simp add: fun_upd_idem_iff)
  ultimately show ?case
    using eq by (subst readLoop.simps) simp
next
  case (Suc n)
  then have lt: "offset m < mr_length m" by simp
  let ?c = "mem m ! offset m"
  let ?m' = "m\<lparr>offset := Suc (offset m)\<rparr>"
  let ?h' = "h(p := (h p)\<lparr>obj := ?m'\<rparr>)"
  let ?ist' = "ist\<lparr>ris_sb := (ris_sb ist)\<lparr>rsb_buffer := ?c\<rparr>\<rparr>"
  have data: "take (mr_length m - offset m) (drop (offset m) (mem m)) =
              ?c # take (mr_length m - Suc (offset m)) (drop (Suc (offset m)) (mem m))"
    using lt Suc.prems(5)
    by (metis Cons_nth_drop_Suc Suc_diff_Suc less_le_trans take_Suc_Cons)
  have safe: "char_to_int cs ?c \<noteq> EOF"
    using Suc.prems(6) data by simp
  have step: "istream_get cs MemoryReader h ist = (Some ?c, ?h', ?ist')"
    using Suc.prems lt safe by (intro istream_get_MemoryReader_byte) simp_all
  have ih: "readLoop cs MemoryReader ?h' ?ist' (msg @ [?c]) =
           Some ((msg @ [?c]) @ take (mr_length ?m' - offset ?m') (drop (offset ?m') (mem ?m')),
                 ?h'(p := (?h' p)\<lparr>obj := ?m'\<lparr>offset := mr_length ?m'\<rparr>\<rparr>),
                 ?ist'\<lparr>ris_sb := (ris_sb ?ist')\<lparr>rsb_buffer :=
                        last (rsb_buffer (ris_sb ?ist') # take (mr_length ?m' - offset ?m') (drop (offset ?m') (mem ?m')))\<rparr>,
                     ris_good := False\<rparr>)"
    using Suc.hyps(2) Suc.prems lt data
    by (intro Suc.hyps(1)) simp_all
  show ?case
    by (subst readLoop.simps) (simp add: step ih data)
qed

lemma char_to_int_unsigned: "char_to_int False c \<noteq> EOF"
  by (simp add: char_to_int_def EOF_def)

lemma putByteInternal_attached:
  "wsb_writer sb = Some p \<Longrightarrow>
   snd (putByteInternal W h sb (int (of_char c))) = wroteByte W h p c"
  by (simp add: putByteInternal_def wroteByte_def split: prod.splits sum.splits)

lemma ostream_insert_single:
  assumes "wos_good ost" "wsb_writer (wos_sb ost) = Some p"
  shows "fst (ostream_insert W h ost [c]) = wroteByte W h p c"
    and "wos_sb (snd (ostream_insert W h ost [c])) = wos_sb ost"
  using assms putByteInternal_attached [of "wos_sb ost" p W h c]
  by (auto simp: ostream_insert_def overflow_def EOF_def split: prod.splits)

lemma is_close_keeps:
  "wheap (is_close R s) = wheap s" "ostr (is_close R s) = ostr s"
  "messages (is_close R s) = messages s"
  by (simp_all add: is_close_def split: prod.splits)

lemma reject_messages: "messages (reject W s line) = messages s @ line"
  by (simp add: reject_def os_insert_def split: prod.splits)

lemma reject_streams:
  "rheap (reject W s line) = rheap s" "istr (reject W s line) = istr s"
  "(wheap (reject W s line), ostr (reject W s line)) = ostream_insert W (wheap s) (ostr s) ''0''"
  by (simp_all add: reject_def os_insert_def split: prod.splits)

lemma reject_response:
  assumes "wos_good (ostr s)" "wsb_writer (wos_sb (ostr s)) = Some p"
  shows "wheap (reject W s line) = wroteByte W (wheap s) p (CHR ''0'')"
    and "wsb_writer (wos_sb (ostr (reject W s line))) = Some p"
  using ostream_insert_single [OF assms, of W "wheap s" "CHR ''0''"] assms(2)
  by (simp_all add: reject_def os_insert_def case_prod_unfold)

lemma accept_response:
  assumes "wos_good (ostr s)" "wsb_writer (wos_sb (ostr s)) = Some p"
  shows "wheap (os_close W (os_insert W s ''1'')) =
           sp_release (destroyWriter W) (wroteByte W (wheap s) p (CHR ''1'')) p"
    and "wsb_writer (wos_sb (ostr (os_close W (os_insert W s ''1'')))) = None"
  using ostream_insert_single [OF assms, of W "wheap s" "CHR ''1''"] assms(2)
  by (simp_all add: os_close_def os_insert_def WriterOStream_close_def WriterStreamBuf_close_def
      case_prod_unfold)

lemma os_keeps:
  "messages (os_insert W s str) = messages s" "messages (os_close W s) = messages s"
  "rheap (os_insert W s str) = rheap s" "rheap (os_close W s) = rheap s"
  "istr (os_insert W s str) = istr s" "istr (os_close W s) = istr s"
  by (simp_all add: os_insert_def os_close_def split: prod.splits)

lemma connectionHandler_read:
  "readLoop (charSigned E) R (rheap s) (istr s) [] = Some (msg, h1, ist1) \<Longrightarrow>
   connectionHandler L E C R W s =
     Some (handleRequest L E C W (is_close R (s\<lparr>rheap := h1, istr := ist1\<rparr>)) msg)"
  by (simp add: connectionHandler_def)

lemma handleRequest_empty:
  "handleRequest L E C W s [] = reject W s (''Error : Invalid request'' @ [NL])"
  by (simp add: handleRequest_def)

lemma handleRequest_unencrypted_key:
  "decryptionModulus C \<noteq> 0 \<Longrightarrow>
   handleRequest L E C W s (CHR ''0'' # body) =
     reject W s (''Error : unencrypted message attempted'' @ [NL])"
  by (simp add: handleRequest_def)

lemma handleRequest_unencrypted:
  "decryptionModulus C = 0 \<Longrightarrow>
   handleRequest L E C W s (CHR ''0'' # body) = parseBody E C W s body"
  by (simp add: handleRequest_def substr_from_def)

lemma handleRequest_bad_tag:
  "c \<noteq> CHR ''0'' \<Longrightarrow> c \<noteq> CHR ''1'' \<Longrightarrow>
   handleRequest L E C W s (c # body) = reject W s (''Error : Invalid encryption type'' @ [NL])"
  by (simp add: handleRequest_def)

lemma handleRequest_encrypted:
  "list_all lineFree bs \<Longrightarrow> lineFree tr \<Longrightarrow>
   handleRequest L E C W s (CHR ''1'' # withNL bs @ tr) =
     (case decryptBlocks L C bs [] of
        Inl e \<Rightarrow> reject W s (''Error : '' @ e @ [NL])
      | Inr unencrypted \<Rightarrow> parseBody E C W s unencrypted)"
  using decryptLoop_blocks [of bs tr L C "[]" "[]"]
  by (simp add: handleRequest_def substr_from_def)

lemma parseBody_no_name:
  "lineFree body \<Longrightarrow> parseBody E C W s body = reject W s (''Error : can't find device name'' @ [NL])"
  by (simp add: parseBody_def lineFree_def find_first_of_0_none)

lemma parseBody_name:
  assumes "lineFree D"
  shows "parseBody E C W s (D @ NL # rest) =
           (os_close W (os_insert W (s\<lparr>messages := messages s @ infoLine C D\<rparr>) ''1''))
             \<lparr>messages := messages s @ infoLine C D @
                concat (map (eventLine E D) (stampParts E 0 (splitParts (snd (parseStats rest)))))\<rparr>"
  using assms
  by (simp add: parseBody_def lineFree_def find_first_of_0 substr_def substr_from_def Let_def
      infoLine_def emitMessages_concat os_keeps split: prod.splits)

lemma rejectsWith_reject:
  "rejectsWith W s (reject W (is_close R (s\<lparr>rheap := h1, istr := ist1\<rparr>)) (''Error : '' @ reason @ [NL])) reason"
  by (simp add: rejectsWith_def reject_messages reject_streams is_close_keeps)

lemma sample_read:
  assumes "list_all (\<lambda>c. char_to_int True c \<noteq> EOF) req"
  shows "readLoop (charSigned samplePlatform) MemoryReader (rheap (sampleState req)) (istr (sampleState req)) [] =
           Some (req,
             (rheap (sampleState req))(0 := (rheap (sampleState req) 0)\<lparr>obj := \<lparr>mem = req, offset = length req, mr_length = length req\<rparr>\<rparr>),
             (istr (sampleState req))\<lparr>ris_sb := (ris_sb (istr (sampleState req)))\<lparr>rsb_buffer := last (CHR 0x00 # req)\<rparr>,
                ris_good := False\<rparr>)"
  using readLoop_MemoryReader [of "istr (sampleState req)" 0 "rheap (sampleState req)"
      "\<lparr>mem = req, offset = 0, mr_length = length req\<rparr>" True "[]"] assms
  by (simp add: sampleState_def samplePlatform_def)

lemma sample_response:
  "obj (fst (ostream_insert bufferWriter (wheap (sampleState req)) (ostr (sampleState req)) [c]) 0) = [c]"
  by (simp add: ostream_insert_def overflow_def putByteInternal_def bufferWriter_def sampleState_def EOF_def)

lemma sample_rejects:
  assumes "rejectsWith bufferWriter (sampleState req) s' reason"
  shows "messages s' = ''Error : '' @ reason @ [NL] \<and> obj (wheap s' 0) = ''0''"
proof -
  from assms have "wheap s' = fst (ostream_insert bufferWriter (wheap (sampleState req)) (ostr (sampleState req)) ''0'')"
    by (metis rejectsWith_def fst_conv)
  then have "obj (wheap s' 0) = ''0''" by (simp add: sample_response)
  with assms show ?thesis by (simp add: rejectsWith_def sampleState_def)
qed

lemma handler_rejects:
  assumes "readLoop (charSigned E) R (rheap s) (istr s) [] = Some (msg, h1, ist1)"
    and "handleRequest L E C W (is_close R (s\<lparr>rheap := h1, istr := ist1\<rparr>)) msg =
           reject W (is_close R (s\<lparr>rheap := h1, istr := ist1\<rparr>)) (''Error : '' @ reason @ [NL])"
  shows "\<exists>s'. connectionHandler L E C R W s = Some s' \<and> rejectsWith W s s' reason"
  using connectionHandler_read [OF assms(1), of L C W] assms(2) rejectsWith_reject
  by metis

lemma handleRequest_unencrypted_key':
  "decryptionModulus C \<noteq> 0 \<Longrightarrow>
   handleRequest L E C W s (CHR ''0'' # body) =
     reject W s (''Error : '' @ ''unencrypted message attempted'' @ [NL])"
  by (simp add: handleRequest_def)

lemma handleRequest_bad_tag':
  "c \<noteq> CHR ''0'' \<Longrightarrow> c \<noteq> CHR ''1'' \<Longrightarrow>
   handleRequest L E C W s (c # body) = reject W s (''Error : '' @ ''Invalid encryption type'' @ [NL])"
  by (simp add: handleRequest_def)

lemma sample_rejects_ex:
  assumes "\<exists>s'. connectionHandler L E C R bufferWriter (sampleState req) = Some s' \<and>
            rejectsWith bufferWriter (sampleState req) s' reason"
  shows "\<exists>s'. connectionHandler L E C R bufferWriter (sampleState req) = Some s' \<and>
            messages s' = ''Error : '' @ reason @ [NL] \<and> obj (wheap s' 0) = ''0''"
  using assms sample_rejects by blast

lemma decryptBlock_verified: "decryptBlock L C b = Inr p \<Longrightarrow> verified L C b"
  by (auto simp: decryptBlock_def verified_def divMod_def split: sum.splits if_splits)

lemma decryptBlock_checked:
  assumes "parseBase64 L b = Inr v"
    and "powMod L v (decryptionExponent C) (decryptionModulus C) = Inr x"
  shows "decryptBlock L C b =
           (if x mod checkSumModulus = (x div checkSumModulus) mod checkSumModulus
            then toByteString L (drop_bit randomBitCount (x div checkSumModulus))
            else Inl ''checksum doesn't match'')"
  using assms by (simp add: decryptBlock_def divMod_def)

lemma decryptBlocks_all:
  "list_all2 (\<lambda>b p. decryptBlock L C b = Inr p) bs ps \<Longrightarrow>
   decryptBlocks L C bs acc = Inr (acc @ concat ps)"
  by (induction bs ps arbitrary: acc rule: list_all2_induct) simp_all

lemma decryptBlocks_fail:
  "list_all2 (\<lambda>b p. decryptBlock L C b = Inr p) pre ps \<Longrightarrow> decryptBlock L C b = Inl e \<Longrightarrow>
   decryptBlocks L C (pre @ b # post) acc = Inl e"
  by (induction pre ps arbitrary: acc rule: list_all2_induct) simp_all

lemma decryptBlocks_cases:
  "(\<exists>ps. list_all2 (\<lambda>b p. decryptBlock L C b = Inr p) bs ps \<and>
         decryptBlocks L C bs acc = Inr (acc @ concat ps)) \<or>
   (\<exists>e. decryptBlocks L C bs acc = Inl e)"
proof (induction bs arbitrary: acc)
  case Nil
  then show ?case by simp
next
  case (Cons b bs)
  show ?case
  proof (cases "decryptBlock L C b")
    case (Inl e)
    then show ?thesis by simp
  next
    case (Inr p)
    from Cons [of "acc @ p"] show ?thesis
    proof
      assume "\<exists>ps. list_all2 (\<lambda>b p. decryptBlock L C b = Inr p) bs ps \<and>
         decryptBlocks L C bs (acc @ p) = Inr ((acc @ p) @ concat ps)"
      then obtain ps where "list_all2 (\<lambda>b p. decryptBlock L C b = Inr p) bs ps"
        "decryptBlocks L C bs (acc @ p) = Inr ((acc @ p) @ concat ps)" by blast
      with Inr have "list_all2 (\<lambda>b p. decryptBlock L C b = Inr p) (b # bs) (p # ps) \<and>
         decryptBlocks L C (b # bs) acc = Inr (acc @ concat (p # ps))" by simp
      then show ?thesis by blast
    next
      assume "\<exists>e. decryptBlocks L C bs (acc @ p) = Inl e"
      with Inr show ?thesis by simp
    qed
  qed
qed

lemma handleRequest_encrypted_fail:
  assumes "list_all lineFree bs" "lineFree tr" "decryptBlocks L C bs [] = Inl e"
  shows "handleRequest L E C W s (CHR ''1'' # withNL bs @ tr) = reject W s (''Error : '' @ e @ [NL])"
  using assms by (simp add: handleRequest_encrypted)

lemma handleRequest_encrypted_ok:
  assumes "list_all lineFree bs" "lineFree tr"
    and "list_all2 (\<lambda>b p. decryptBlock L C b = Inr p) bs ps"
  shows "handleRequest L E C W s (CHR ''1'' # withNL bs @ tr) = parseBody E C W s (concat ps)"
  using assms decryptBlocks_all [of L C bs ps "[]"] by (simp add: handleRequest_encrypted)

lemma parseBody_no_name':
  "lineFree body \<Longrightarrow> parseBody E C W s body = reject W s (''Error : '' @ ''can't find device name'' @ [NL])"
  by (simp add: parseBody_no_name)

lemma sample_chars:
  "list_all (\<lambda>c. char_to_int True c \<noteq> EOF) cs = list_all (\<lambda>c. (of_char c :: nat) \<noteq> 255) cs"
  by (induction cs) (auto simp: char_to_int_def EOF_def)

lemma sample_block_dev: "decryptBlock sampleLib keyConfig ''c8c4a5aae6789abcdf012222a'' = Inr ''dev''"
  by (simp add: decryptBlock_def sampleLib_def keyConfig_def hexDigit_def divMod_def
      checkSumModulus_def randomBitCount_def drop_bit_eq_div natBytes.simps char_of_eq_iff)

lemma decryptBlocks_first_failure:
  "(\<exists>ps. list_all2 (\<lambda>b p. decryptBlock L C b = Inr p) bs ps \<and>
         decryptBlocks L C bs acc = Inr (acc @ concat ps)) \<or>
   (\<exists>pre b post ps e. bs = pre @ b # post \<and>
         list_all2 (\<lambda>b p. decryptBlock L C b = Inr p) pre ps \<and>
         decryptBlock L C b = Inl e \<and> decryptBlocks L C bs acc = Inl e)"
proof (induction bs arbitrary: acc)
  case Nil
  then show ?case by simp
next
  case (Cons b bs)
  show ?case
  proof (cases "decryptBlock L C b")
    case (Inl e)
    then have "b # bs = [] @ b # bs \<and> list_all2 (\<lambda>b p. decryptBlock L C b = Inr p) [] [] \<and>
         decryptBlock L C b = Inl e \<and> decryptBlocks L C (b # bs) acc = Inl e"
      by simp
    then show ?thesis by blast
  next
    case (Inr p)
    from Cons [of "acc @ p"] show ?thesis
    proof
      assume "\<exists>ps. list_all2 (\<lambda>b p. decryptBlock L C b = Inr p) bs ps \<and>
         decryptBlocks L C bs (acc @ p) = Inr ((acc @ p) @ concat ps)"
      then obtain ps where "list_all2 (\<lambda>b p. decryptBlock L C b = Inr p) bs ps"
        "decryptBlocks L C bs (acc @ p) = Inr ((acc @ p) @ concat ps)" by blast
      with Inr have "list_all2 (\<lambda>b p. decryptBlock L C b = Inr p) (b # bs) (p # ps) \<and>
         decryptBlocks L C (b # bs) acc = Inr (acc @ concat (p # ps))" by simp
      then show ?thesis by blast
    next
      assume "\<exists>pre b' post ps e. bs = pre @ b' # post \<and>
         list_all2 (\<lambda>b p. decryptBlock L C b = Inr p) pre ps \<and>
         decryptBlock L C b' = Inl e \<and> decryptBlocks L C bs (acc @ p) = Inl e"
      then obtain pre b' post ps e where f: "bs = pre @ b' # post"
         "list_all2 (\<lambda>b p. decryptBlock L C b = Inr p) pre ps"
         "decryptBlock L C b' = Inl e" "decryptBlocks L C bs (acc @ p) = Inl e" by blast
      with Inr have "b # bs = (b # pre) @ b' # post \<and>
         list_all2 (\<lambda>b p. decryptBlock L C b = Inr p) (b # pre) (p # ps) \<and>
         decryptBlock L C b' = Inl e \<and> decryptBlocks L C (b # bs) acc = Inl e" by simp
      then show ?thesis by blast
    qed
  qed
qed

lemma verified_all:
  "list_all2 (\<lambda>b p. decryptBlock L C b = Inr p) bs ps \<Longrightarrow> list_all (verified L C) bs"
  by (induction bs ps rule: list_all2_induct) (simp_all add: decryptBlock_verified)

lemma acceptsWith_parseBody:
  assumes "lineFree D"
  shows "acceptsWith W s
           (parseBody E C W (is_close R (s\<lparr>rheap := h1, istr := ist1\<rparr>)) (D @ NL # rest))
           (infoLine C D @
              concat (map (eventLine E D) (stampParts E 0 (splitParts (snd (parseStats rest))))))"
  by (simp add: parseBody_name [OF assms] acceptsWith_def is_close_keeps os_close_def os_insert_def
      case_prod_unfold)

lemma body_split:
  assumes "\<not> lineFree body"
  shows "\<exists>D rest. body = D @ NL # rest \<and> lineFree D"
proof -
  from assms have "NL \<in> set body" by (simp add: lineFree_def)
  then obtain D rest where "body = D @ NL # rest" "NL \<notin> set D"
    by (meson split_list_first)
  then show ?thesis by (auto simp: lineFree_def)
qed

lemma parseBody_outcome:
  "(\<exists>reason. parseBody E C W (is_close R (s\<lparr>rheap := h1, istr := ist1\<rparr>)) body =
       reject W (is_close R (s\<lparr>rheap := h1, istr := ist1\<rparr>)) (''Error : '' @ reason @ [NL])) \<or>
   (\<exists>D parts. acceptsWith W s (parseBody E C W (is_close R (s\<lparr>rheap := h1, istr := ist1\<rparr>)) body)
       (infoLine C D @ concat (map (eventLine E D) parts)))"
proof (cases "lineFree body")
  case True
  then show ?thesis using parseBody_no_name' by blast
next
  case False
  then obtain D rest where "body = D @ NL # rest" "lineFree D"
    using body_split by blast
  then show ?thesis using acceptsWith_parseBody by blast
qed

lemma handleRequest_outcome:
  "(\<exists>reason. handleRequest L E C W s msg = reject W s (''Error : '' @ reason @ [NL])) \<or>
   (\<exists>body. handleRequest L E C W s msg = parseBody E C W s body)"
proof -
  let ?d = "decryptLoop L C (substr_from msg 1) 0 (find_first_of (substr_from msg 1) NL 0) []"
  consider (empty) "length msg < 1"
    | (key) "\<not> length msg < 1" "msg ! 0 = CHR ''0''" "decryptionModulus C \<noteq> 0"
    | (plain) "\<not> length msg < 1" "msg ! 0 = CHR ''0''" "decryptionModulus C = 0"
    | (fail) e where "\<not> length msg < 1" "msg ! 0 \<noteq> CHR ''0''" "msg ! 0 = CHR ''1''" "?d = Inl e"
    | (ok) u where "\<not> length msg < 1" "msg ! 0 \<noteq> CHR ''0''" "msg ! 0 = CHR ''1''" "?d = Inr u"
    | (tag) "\<not> length msg < 1" "msg ! 0 \<noteq> CHR ''0''" "msg ! 0 \<noteq> CHR ''1''"
    by (cases ?d) blast+
  then show ?thesis
  proof cases
    case empty
    then have "handleRequest L E C W s msg = reject W s (''Error : '' @ ''Invalid request'' @ [NL])"
      by (simp add: handleRequest_def)
    then show ?thesis by blast
  next
    case key
    then have "handleRequest L E C W s msg =
        reject W s (''Error : '' @ ''unencrypted message attempted'' @ [NL])"
      by (simp add: handleRequest_def)
    then show ?thesis by blast
  next
    case plain
    then have "handleRequest L E C W s msg = parseBody E C W s (substr_from msg 1)"
      by (simp add: handleRequest_def)
    then show ?thesis by blast
  next
    case fail
    then have "handleRequest L E C W s msg = reject W s (''Error : '' @ e @ [NL])"
      by (simp add: handleRequest_def)
    then show ?thesis by blast
  next
    case ok
    then have "handleRequest L E C W s msg = parseBody E C W s u"
      by (simp add: handleRequest_def)
    then show ?thesis by blast
  next
    case tag
    then have "handleRequest L E C W s msg =
        reject W s (''Error : '' @ ''Invalid encryption type'' @ [NL])"
      by (simp add: handleRequest_def)
    then show ?thesis by blast
  qed
qed

lemma handler_outcome:
  assumes "readLoop (charSigned E) R (rheap s) (istr s) [] = Some (msg, h1, ist1)"
  shows "\<exists>s'. connectionHandler L E C R W s = Some s' \<and>
           ((\<exists>reason. rejectsWith W s s' reason) \<or>
            (\<exists>D parts. acceptsWith W s s' (infoLine C D @ concat (map (eventLine E D) parts))))"
proof -
  let ?s1 = "is_close R (s\<lparr>rheap := h1, istr := ist1\<rparr>)"
  have h: "connectionHandler L E C R W s = Some (handleRequest L E C W ?s1 msg)"
    by (rule connectionHandler_read [OF assms])
  from handleRequest_outcome [of L E C W ?s1 msg] show ?thesis
  proof
    assume "\<exists>reason. handleRequest L E C W ?s1 msg = reject W ?s1 (''Error : '' @ reason @ [NL])"
    then show ?thesis using handler_rejects [OF assms] by blast
  next
    assume "\<exists>body. handleRequest L E C W ?s1 msg = parseBody E C W ?s1 body"
    then obtain body where b: "handleRequest L E C W ?s1 msg = parseBody E C W ?s1 body" by blast
    from parseBody_outcome [where E = E and C = C and W = W and R = R and s = s and ?h1.0 = h1 and ?ist1.0 = ist1 and body = body] show ?thesis
    proof
      assume "\<exists>reason. parseBody E C W ?s1 body = reject W ?s1 (''Error : '' @ reason @ [NL])"
      with b show ?thesis using handler_rejects [OF assms] by metis
    next
      assume "\<exists>D parts. acceptsWith W s (parseBody E C W ?s1 body)
                 (infoLine C D @ concat (map (eventLine E D) parts))"
      with b h show ?thesis by auto
    qed
  qed
qed

lemma rejectsWith_attached:
  assumes "rejectsWith W s s' reason" "wsb_writer (wos_sb (ostr s)) = Some p"
  shows "wsb_writer (wos_sb (ostr s')) = Some p"
proof -
  have put: "wos_sb (snd (put_chars W h ost str)) = wos_sb ost" for h ost str
    by (induction str arbitrary: h) (simp_all add: case_prod_unfold)
  have "wos_sb (snd (ostream_insert W h ost str)) = wos_sb ost" for h ost str
    by (simp add: ostream_insert_def put)
  from this [of "wheap s" "ostr s" "''0''"] assms show ?thesis
    by (metis rejectsWith_def snd_conv)
qed

lemma acceptsWith_detached:
  assumes "acceptsWith W s s' ls"
  shows "wsb_writer (wos_sb (ostr s')) = None"
proof -
  have "wsb_writer (wos_sb (snd (WriterOStream_close W h ost))) = None" for h ost
    by (simp add: WriterOStream_close_def WriterStreamBuf_close_def case_prod_unfold
        split: option.splits)
  with assms show ?thesis
    by (metis acceptsWith_def case_prod_unfold snd_conv)
qed

lemma sample_block_bad:
  "parseBase64 sampleLib ''effac6789abcdf0122e1a'' = Inr 0xeffac6789abcdf0122e1a"
  "powMod sampleLib 0xeffac6789abcdf0122e1a (decryptionExponent keyConfig) (decryptionModulus keyConfig) =
     Inr 0xeffac6789abcdf0122e1a"
  "(0xeffac6789abcdf0122e1a :: nat) mod checkSumModulus \<noteq>
     (0xeffac6789abcdf0122e1a div checkSumModulus) mod checkSumModulus"
  by (simp_all add: sampleLib_def keyConfig_def hexDigit_def checkSumModulus_def)

lemma sampleEncrypted_blocks:
  "sampleEncrypted = CHR ''1'' # withNL ([''c8c4a5aae6789abcdf012222a''] @ ''effac6789abcdf0122e1a'' # []) @ []"
  by (simp add: sampleEncrypted_def withNL_def)

lemma sampleEncrypted_chars: "list_all (\<lambda>c. char_to_int True c \<noteq> EOF) sampleEncrypted"
  by (simp add: sampleEncrypted_def sample_chars)











lemma sample_stamps:
  "stampPart samplePlatform 0 (0, ''6553f100 up'') = (1700000000, ''up'')"
  "stampPart samplePlatform 1 (0, ''down'') = (1700000001, ''down'')"
  "stampPart samplePlatform 0 (0, ''hello world'') = (0, ''world'')"
  by (simp_all add: stampPart_def samplePlatform_def find_first_of_def substr_def substr_from_def
      extractHex_def isspace_def splitSign_def skipHexPrefix_def hexDigit_def TIME_MAX_def)






lemma hexDigit_not_special:
  assumes "hexDigit c \<noteq> None"
  shows "\<not> isspace c" "c \<noteq> CHR ''-''" "c \<noteq> CHR ''+''" "c \<noteq> CHR ''x''" "c \<noteq> CHR ''X''"
    "c \<noteq> CHR '' ''"
  using assms by (auto simp: hexDigit_def isspace_def Let_def split: if_splits)

lemma extractHex_digits:
  assumes "ds \<noteq> []" "list_all (\<lambda>c. hexDigit c \<noteq> None) ds" "int (hexValue 0 ds) \<le> TIME_MAX"
  shows "extractHex ds t = int (hexValue 0 ds)"
proof -
  from assms(1) obtain c r where ds: "ds = c # r" by (cases ds) auto
  with assms(2) have c: "hexDigit c \<noteq> None" by simp
  have sp: "dropWhile isspace ds = ds"
    using ds hexDigit_not_special(1) [OF c] by simp
  have sg: "splitSign ds = (False, ds)"
    using ds hexDigit_not_special(2,3) [OF c] by (simp add: splitSign_def)
  have px: "skipHexPrefix ds = ds"
  proof (cases r)
    case Nil
    with ds show ?thesis by (simp add: skipHexPrefix_def)
  next
    case (Cons x r')
    with ds assms(2) have "hexDigit x \<noteq> None" by simp
    from hexDigit_not_special(4,5) [OF this] ds Cons show ?thesis
      by (simp add: skipHexPrefix_def)
  qed
  show ?thesis
    using assms(1,3) by (simp add: extractHex_def sp sg px)
qed

lemma digits_no_space: "list_all (\<lambda>c. hexDigit c \<noteq> None) ds \<Longrightarrow> CHR '' '' \<notin> set ds"
  using hexDigit_not_special(6) by (induction ds) auto

lemma stampPart_timestamp:
  assumes "ds \<noteq> []" "list_all (\<lambda>c. hexDigit c \<noteq> None) ds" "int (hexValue 0 ds) \<le> TIME_MAX"
  shows "stampPart E k (t0, ds @ CHR '' '' # desc) = (int (hexValue 0 ds), desc)"
    and "hasHexTimestamp (ds @ CHR '' '' # desc)"
  using assms find_first_of_0 [OF digits_no_space [OF assms(2)], of desc]
  by (simp_all add: stampPart_def hasHexTimestamp_def substr_def substr_from_def extractHex_digits)

lemma stampPart_no_space:
  assumes "CHR '' '' \<notin> set line"
  shows "stampPart E k (t0, line) = (time_NULL E k, line)"
    and "\<not> hasHexTimestamp line"
  using find_first_of_0_none [OF assms]
  by (simp_all add: stampPart_def hasHexTimestamp_def)


lemma acceptMany_queue:
  "acceptMany nextAccept (length cs + n) \<lparr>streams = cs, nextServer = nx\<rparr> =
     (map Inr cs @ fst (acceptMany nextAccept n \<lparr>streams = [], nextServer = nx\<rparr>),
      snd (acceptMany nextAccept n \<lparr>streams = [], nextServer = nx\<rparr>))"
  by (induction cs) (simp_all add: accept_def case_prod_unfold)

lemma acceptMany_empty_none:
  "acceptMany nextAccept n \<lparr>streams = [], nextServer = None\<rparr> =
     (replicate n (Inl NoStreamsLeftException), \<lparr>streams = [], nextServer = None\<rparr>)"
  by (induction n) (simp_all add: accept_def)

lemma acceptMany_empty_next:
  "acceptMany nextAccept n \<lparr>streams = [], nextServer = Some s\<rparr> =
     (fst (callMany nextAccept n s), \<lparr>streams = [], nextServer = Some (snd (callMany nextAccept n s))\<rparr>)"
  by (induction n arbitrary: s) (simp_all add: accept_def case_prod_unfold)







section \<open>The claims\<close>

text \<open>
  Claim C8.  When the request that the handler reads is empty, the handler adds the one
  message \<open>Error : Invalid request\<close>, and all it does to the output stream is to insert
  the text \<open>0\<close>: on a good stream attached to a writer that is exactly one call
  \<open>writeByte('0')\<close>, and the stream stays attached.
\<close>

theorem empty_request_rejected:
  assumes "readLoop (charSigned E) R (rheap s) (istr s) [] = Some ([], h1, ist1)"
  shows "\<exists>s'. connectionHandler L E C R W s = Some s' \<and>
           messages s' = messages s @ ''Error : Invalid request'' @ [NL] \<and>
           (wheap s', ostr s') = ostream_insert W (wheap s) (ostr s) ''0'' \<and>
           (\<forall>p. wos_good (ostr s) \<and> wsb_writer (wos_sb (ostr s)) = Some p \<longrightarrow>
                wheap s' = wroteByte W (wheap s) p (CHR ''0'') \<and>
                wsb_writer (wos_sb (ostr s')) = Some p)"
  using connectionHandler_read [OF assms, of L C W]
  by (simp add: handleRequest_empty reject_messages reject_streams reject_response is_close_keeps)

theorem empty_request_rejected_witness:
  "\<exists>s'. connectionHandler sampleLib samplePlatform plainConfig MemoryReader bufferWriter (sampleState []) = Some s' \<and>
        messages s' = ''Error : Invalid request'' @ [NL] \<and> obj (wheap s' 0) = ''0''"
proof -
  have rd: "list_all (\<lambda>c. char_to_int True c \<noteq> EOF) []" by simp
  from empty_request_rejected [OF sample_read [OF rd], of sampleLib plainConfig bufferWriter]
  obtain s' where s': "connectionHandler sampleLib samplePlatform plainConfig MemoryReader bufferWriter (sampleState []) = Some s'"
    "messages s' = messages (sampleState []) @ ''Error : Invalid request'' @ [NL]"
    "(wheap s', ostr s') = ostream_insert bufferWriter (wheap (sampleState [])) (ostr (sampleState [])) ''0''"
    by blast
  from s'(3) have "wheap s' = fst (ostream_insert bufferWriter (wheap (sampleState [])) (ostr (sampleState [])) ''0'')"
    by (metis fst_conv)
  then have "obj (wheap s' 0) = ''0''" by (simp add: sample_response)
  with s'(1,2) show ?thesis by (simp add: sampleState_def)
qed

text \<open>
  Claim C6.  For a request that is not empty: when its first character is \<open>0\<close> and a
  decryption key is configured (the modulus is not 0), the handler rejects it, whatever
  the body, with the text \<open>0\<close> and the message \<open>Error : unencrypted message attempted\<close>;
  when its first character is neither \<open>0\<close> nor \<open>1\<close>, the handler rejects it with the text
  \<open>0\<close> and the message \<open>Error : Invalid encryption type\<close>.
\<close>

theorem tag_rejected:
  assumes "readLoop (charSigned E) R (rheap s) (istr s) [] = Some (c # body, h1, ist1)"
  shows "(c = CHR ''0'' \<and> decryptionModulus C \<noteq> 0 \<longrightarrow>
            (\<exists>s'. connectionHandler L E C R W s = Some s' \<and>
                  rejectsWith W s s' ''unencrypted message attempted'')) \<and>
         (c \<noteq> CHR ''0'' \<and> c \<noteq> CHR ''1'' \<longrightarrow>
            (\<exists>s'. connectionHandler L E C R W s = Some s' \<and>
                  rejectsWith W s s' ''Invalid encryption type''))"
proof (intro conjI impI)
  assume "c = CHR ''0'' \<and> decryptionModulus C \<noteq> 0"
  then show "\<exists>s'. connectionHandler L E C R W s = Some s' \<and>
                  rejectsWith W s s' ''unencrypted message attempted''"
    using assms by (intro handler_rejects [OF _ handleRequest_unencrypted_key']) auto
next
  assume "c \<noteq> CHR ''0'' \<and> c \<noteq> CHR ''1''"
  then show "\<exists>s'. connectionHandler L E C R W s = Some s' \<and>
                  rejectsWith W s s' ''Invalid encryption type''"
    using assms by (intro handler_rejects [OF _ handleRequest_bad_tag']) auto
qed

theorem tag_rejected_witness:
  "(\<exists>s'. connectionHandler sampleLib samplePlatform keyConfig MemoryReader bufferWriter
            (sampleState ''0dev'') = Some s' \<and>
         messages s' = ''Error : unencrypted message attempted'' @ [NL] \<and>
         obj (wheap s' 0) = ''0'') \<and>
   (\<exists>s'. connectionHandler sampleLib samplePlatform keyConfig MemoryReader bufferWriter
            (sampleState ''2dev'') = Some s' \<and>
         messages s' = ''Error : Invalid encryption type'' @ [NL] \<and>
         obj (wheap s' 0) = ''0'')"
proof -
  have r0: "list_all (\<lambda>c. char_to_int True c \<noteq> EOF) ''0dev''"
    and r2: "list_all (\<lambda>c. char_to_int True c \<noteq> EOF) ''2dev''"
    by (simp_all add: char_to_int_def EOF_def)
  have k: "decryptionModulus keyConfig \<noteq> 0" by (simp add: keyConfig_def)
  from tag_rejected [OF sample_read [OF r0], of keyConfig sampleLib bufferWriter] k
  have "\<exists>s'. connectionHandler sampleLib samplePlatform keyConfig MemoryReader bufferWriter
            (sampleState ''0dev'') = Some s' \<and>
          rejectsWith bufferWriter (sampleState ''0dev'') s' ''unencrypted message attempted''"
    by simp
  from sample_rejects_ex [OF this] have a: "\<exists>s'. connectionHandler sampleLib samplePlatform keyConfig MemoryReader bufferWriter
            (sampleState ''0dev'') = Some s' \<and>
         messages s' = ''Error : unencrypted message attempted'' @ [NL] \<and>
         obj (wheap s' 0) = ''0''"
    by simp
  from tag_rejected [OF sample_read [OF r2], of keyConfig sampleLib bufferWriter]
  have "\<exists>s'. connectionHandler sampleLib samplePlatform keyConfig MemoryReader bufferWriter
            (sampleState ''2dev'') = Some s' \<and>
          rejectsWith bufferWriter (sampleState ''2dev'') s' ''Invalid encryption type''"
    by simp
  from sample_rejects_ex [OF this] have "\<exists>s'. connectionHandler sampleLib samplePlatform keyConfig MemoryReader bufferWriter
            (sampleState ''2dev'') = Some s' \<and>
         messages s' = ''Error : Invalid encryption type'' @ [NL] \<and>
         obj (wheap s' 0) = ''0''"
    by simp
  with a show ?thesis by blast
qed

text \<open>
  Claim C7.  A request whose body has no line break has no device name.  For the tag \<open>0\<close>
  without a configured key, the body is the rest of the request; for the tag \<open>1\<close> it is the
  concatenation \<open>concat ps\<close> of the plain texts of the blocks, every one of which decoded
  and passed the verification.  In both cases the handler rejects the request with the
  text \<open>0\<close> and the message \<open>Error : can't find device name\<close>.
\<close>

theorem no_device_name_rejected:
  assumes "readLoop (charSigned E) R (rheap s) (istr s) [] = Some (msg, h1, ist1)"
  shows "(msg = CHR ''0'' # body \<and> decryptionModulus C = 0 \<and> lineFree body \<longrightarrow>
            (\<exists>s'. connectionHandler L E C R W s = Some s' \<and>
                  rejectsWith W s s' ''can't find device name'')) \<and>
         (msg = CHR ''1'' # withNL bs @ tr \<and> list_all lineFree bs \<and> lineFree tr \<and>
          list_all2 (\<lambda>b p. decryptBlock L C b = Inr p) bs ps \<and> lineFree (concat ps) \<longrightarrow>
            list_all (verified L C) bs \<and>
            (\<exists>s'. connectionHandler L E C R W s = Some s' \<and>
                  rejectsWith W s s' ''can't find device name''))"
proof (intro conjI impI)
  assume a: "msg = CHR ''0'' # body \<and> decryptionModulus C = 0 \<and> lineFree body"
  then have "handleRequest L E C W (is_close R (s\<lparr>rheap := h1, istr := ist1\<rparr>)) msg =
      reject W (is_close R (s\<lparr>rheap := h1, istr := ist1\<rparr>)) (''Error : '' @ ''can't find device name'' @ [NL])"
    by (simp add: handleRequest_unencrypted parseBody_no_name)
  from handler_rejects [OF assms this]
  show "\<exists>s'. connectionHandler L E C R W s = Some s' \<and> rejectsWith W s s' ''can't find device name''" .
next
  assume a: "msg = CHR ''1'' # withNL bs @ tr \<and> list_all lineFree bs \<and> lineFree tr \<and>
          list_all2 (\<lambda>b p. decryptBlock L C b = Inr p) bs ps \<and> lineFree (concat ps)"
  then have "handleRequest L E C W (is_close R (s\<lparr>rheap := h1, istr := ist1\<rparr>)) msg =
      reject W (is_close R (s\<lparr>rheap := h1, istr := ist1\<rparr>)) (''Error : '' @ ''can't find device name'' @ [NL])"
    using handleRequest_encrypted_ok [of bs tr L C ps E W] by (simp add: parseBody_no_name)
  from handler_rejects [OF assms this]
  show "\<exists>s'. connectionHandler L E C R W s = Some s' \<and> rejectsWith W s s' ''can't find device name''" .
next
  assume a: "msg = CHR ''1'' # withNL bs @ tr \<and> list_all lineFree bs \<and> lineFree tr \<and>
          list_all2 (\<lambda>b p. decryptBlock L C b = Inr p) bs ps \<and> lineFree (concat ps)"
  then have "list_all2 (\<lambda>b p. verified L C b) bs ps"
    by (auto elim!: list_all2_mono dest: decryptBlock_verified)
  then show "list_all (verified L C) bs"
    by (induction bs ps rule: list_all2_induct) simp_all
qed

theorem no_device_name_rejected_witness:
  "(\<exists>s'. connectionHandler sampleLib samplePlatform plainConfig MemoryReader bufferWriter
            (sampleState ''0dev'') = Some s' \<and>
         messages s' = ''Error : can't find device name'' @ [NL] \<and> obj (wheap s' 0) = ''0'') \<and>
   (\<exists>s'. connectionHandler sampleLib samplePlatform keyConfig MemoryReader bufferWriter
            (sampleState (''1c8c4a5aae6789abcdf012222a'' @ [NL])) = Some s' \<and>
         messages s' = ''Error : can't find device name'' @ [NL] \<and> obj (wheap s' 0) = ''0'')"
proof -
  have r0: "list_all (\<lambda>c. char_to_int True c \<noteq> EOF) ''0dev''"
    and r1: "list_all (\<lambda>c. char_to_int True c \<noteq> EOF) (''1c8c4a5aae6789abcdf012222a'' @ [NL])"
    by (simp_all add: sample_chars)
  have "\<exists>s'. connectionHandler sampleLib samplePlatform plainConfig MemoryReader bufferWriter
            (sampleState ''0dev'') = Some s' \<and>
          rejectsWith bufferWriter (sampleState ''0dev'') s' ''can't find device name''"
    using no_device_name_rejected [OF sample_read [OF r0], of "''dev''" plainConfig sampleLib bufferWriter]
    by (simp add: plainConfig_def lineFree_def)
  from sample_rejects_ex [OF this]
  have a: "\<exists>s'. connectionHandler sampleLib samplePlatform plainConfig MemoryReader bufferWriter
            (sampleState ''0dev'') = Some s' \<and>
         messages s' = ''Error : can't find device name'' @ [NL] \<and> obj (wheap s' 0) = ''0''"
    by simp
  have "\<exists>s'. connectionHandler sampleLib samplePlatform keyConfig MemoryReader bufferWriter
            (sampleState (''1c8c4a5aae6789abcdf012222a'' @ [NL])) = Some s' \<and>
          rejectsWith bufferWriter (sampleState (''1c8c4a5aae6789abcdf012222a'' @ [NL])) s' ''can't find device name''"
    using no_device_name_rejected [OF sample_read [OF r1],
        where bs = "[''c8c4a5aae6789abcdf012222a'']" and tr = "[]" and ps = "[''dev'']"
          and C = keyConfig and L = sampleLib and W = bufferWriter]
      sample_block_dev
    by (simp add: lineFree_def withNL_def)
  from sample_rejects_ex [OF this]
  have "\<exists>s'. connectionHandler sampleLib samplePlatform keyConfig MemoryReader bufferWriter
            (sampleState (''1c8c4a5aae6789abcdf012222a'' @ [NL])) = Some s' \<and>
         messages s' = ''Error : can't find device name'' @ [NL] \<and> obj (wheap s' 0) = ''0''"
    by simp
  with a show ?thesis by blast
qed

text \<open>
  Claim C1.  In an encrypted request every block that ends with a line break is decoded
  and taken through the modular exponentiation; the result \<open>x\<close> is divided by the checksum
  modulus 8191, and the remainder is compared with the checksum that the handler
  expects, which is the quotient taken modulo 8191.  When the two agree the block gives the
  bytes of the quotient without its 64 low bits; when they differ the block raises
  \<open>checksum doesn't match\<close>.  A block that differs, reached after the blocks before it have
  passed, makes the handler reject the whole request with the text \<open>0\<close> and the one
  message \<open>Error : checksum doesn't match\<close>.
\<close>

theorem checksum_mismatch_rejected:
  assumes "readLoop (charSigned E) R (rheap s) (istr s) [] =
             Some (CHR ''1'' # withNL (pre @ b # post) @ tr, h1, ist1)"
    and "list_all lineFree (pre @ b # post)" and "lineFree tr"
    and "list_all2 (\<lambda>b p. decryptBlock L C b = Inr p) pre ps"
    and "parseBase64 L b = Inr v"
    and "powMod L v (decryptionExponent C) (decryptionModulus C) = Inr x"
  shows "decryptBlock L C b =
           (if x mod checkSumModulus = (x div checkSumModulus) mod checkSumModulus
            then toByteString L (drop_bit randomBitCount (x div checkSumModulus))
            else Inl ''checksum doesn't match'') \<and>
         (x mod checkSumModulus \<noteq> (x div checkSumModulus) mod checkSumModulus \<longrightarrow>
            (\<exists>s'. connectionHandler L E C R W s = Some s' \<and>
                  rejectsWith W s s' ''checksum doesn't match''))"
proof (intro conjI impI)
  show blk: "decryptBlock L C b =
           (if x mod checkSumModulus = (x div checkSumModulus) mod checkSumModulus
            then toByteString L (drop_bit randomBitCount (x div checkSumModulus))
            else Inl ''checksum doesn't match'')"
    by (rule decryptBlock_checked [OF assms(5,6)])
  assume "x mod checkSumModulus \<noteq> (x div checkSumModulus) mod checkSumModulus"
  with blk have "decryptBlock L C b = Inl ''checksum doesn't match''" by simp
  from decryptBlocks_fail [OF assms(4) this]
  have "decryptBlocks L C (pre @ b # post) [] = Inl ''checksum doesn't match''" .
  from handleRequest_encrypted_fail [OF assms(2,3) this]
  have "handleRequest L E C W (is_close R (s\<lparr>rheap := h1, istr := ist1\<rparr>))
          (CHR ''1'' # withNL (pre @ b # post) @ tr) =
        reject W (is_close R (s\<lparr>rheap := h1, istr := ist1\<rparr>))
          (''Error : '' @ ''checksum doesn't match'' @ [NL])" .
  from handler_rejects [OF assms(1) this]
  show "\<exists>s'. connectionHandler L E C R W s = Some s' \<and>
              rejectsWith W s s' ''checksum doesn't match''" .
qed

theorem checksum_mismatch_rejected_witness:
  "decryptBlock sampleLib keyConfig ''effac6789abcdf0122e1a'' = Inl ''checksum doesn't match'' \<and>
   (\<exists>s'. connectionHandler sampleLib samplePlatform keyConfig MemoryReader bufferWriter
            (sampleState sampleEncrypted) = Some s' \<and>
         messages s' = ''Error : checksum doesn't match'' @ [NL] \<and> obj (wheap s' 0) = ''0'')"
proof -
  have rd: "readLoop (charSigned samplePlatform) MemoryReader (rheap (sampleState sampleEncrypted))
      (istr (sampleState sampleEncrypted)) [] =
    Some (CHR ''1'' # withNL ([''c8c4a5aae6789abcdf012222a''] @ ''effac6789abcdf0122e1a'' # []) @ [],
      (rheap (sampleState sampleEncrypted))(0 := (rheap (sampleState sampleEncrypted) 0)
         \<lparr>obj := \<lparr>mem = sampleEncrypted, offset = length sampleEncrypted, mr_length = length sampleEncrypted\<rparr>\<rparr>),
      (istr (sampleState sampleEncrypted))\<lparr>ris_sb := (ris_sb (istr (sampleState sampleEncrypted)))
         \<lparr>rsb_buffer := last (CHR 0x00 # sampleEncrypted)\<rparr>, ris_good := False\<rparr>)"
    using sample_read [OF sampleEncrypted_chars] sampleEncrypted_blocks by simp
  have lf: "list_all lineFree ([''c8c4a5aae6789abcdf012222a''] @ ''effac6789abcdf0122e1a'' # [])"
    "lineFree []"
    by (simp_all add: lineFree_def)
  have pre: "list_all2 (\<lambda>b p. decryptBlock sampleLib keyConfig b = Inr p)
      [''c8c4a5aae6789abcdf012222a''] [''dev'']"
    by (simp add: sample_block_dev)
  note t = checksum_mismatch_rejected [OF rd lf pre sample_block_bad(1,2), of bufferWriter]
  from t sample_block_bad(3)
  have "\<exists>s'. connectionHandler sampleLib samplePlatform keyConfig MemoryReader bufferWriter
            (sampleState sampleEncrypted) = Some s' \<and>
          rejectsWith bufferWriter (sampleState sampleEncrypted) s' ''checksum doesn't match''"
    by blast
  from sample_rejects_ex [OF this]
  have "\<exists>s'. connectionHandler sampleLib samplePlatform keyConfig MemoryReader bufferWriter
            (sampleState sampleEncrypted) = Some s' \<and>
         messages s' = ''Error : checksum doesn't match'' @ [NL] \<and> obj (wheap s' 0) = ''0''"
    by simp
  moreover from t sample_block_bad(3)
  have "decryptBlock sampleLib keyConfig ''effac6789abcdf0122e1a'' = Inl ''checksum doesn't match''"
    by simp
  ultimately show ?thesis by blast
qed

text \<open>
  Claim C5.  Every run of the handler on a request that has been read ends in one of two
  ways.  Either it rejects: the text \<open>0\<close> is inserted and the messages grow by exactly one
  line \<open>Error : reason\<close>, with no event line.  Or it accepts: the text \<open>1\<close> is inserted, the
  output stream is closed and the messages grow by the optional information line and the
  event lines.  On an output stream that is attached to a writer the two are told apart by
  the stream, which stays attached after a rejection and is detached after an acceptance.
  For an encrypted request, either every block has passed the verification, and the body
  that is parsed is the concatenation of the plain texts of all the blocks; or the first
  block that fails makes the handler reject the whole request with that block's reason,
  and nothing is parsed.
\<close>

theorem frame_only_after_verification:
  assumes "readLoop (charSigned E) R (rheap s) (istr s) [] = Some (msg, h1, ist1)"
  shows "(\<exists>s'. connectionHandler L E C R W s = Some s' \<and>
            ((\<exists>reason. rejectsWith W s s' reason) \<or>
             (\<exists>D parts. acceptsWith W s s' (infoLine C D @ concat (map (eventLine E D) parts)))) \<and>
            (\<forall>p. wsb_writer (wos_sb (ostr s)) = Some p \<longrightarrow>
               (\<forall>reason. rejectsWith W s s' reason \<longrightarrow> wsb_writer (wos_sb (ostr s')) = Some p) \<and>
               (\<forall>ls. acceptsWith W s s' ls \<longrightarrow> wsb_writer (wos_sb (ostr s')) = None))) \<and>
         (msg = CHR ''1'' # withNL bs @ tr \<and> list_all lineFree bs \<and> lineFree tr \<longrightarrow>
            (list_all (verified L C) bs \<and>
             (\<exists>ps. list_all2 (\<lambda>b p. decryptBlock L C b = Inr p) bs ps \<and>
                   connectionHandler L E C R W s =
                     Some (parseBody E C W (is_close R (s\<lparr>rheap := h1, istr := ist1\<rparr>)) (concat ps)))) \<or>
            (\<exists>pre b post ps e. bs = pre @ b # post \<and>
                list_all2 (\<lambda>b p. decryptBlock L C b = Inr p) pre ps \<and>
                decryptBlock L C b = Inl e \<and>
                (\<exists>s'. connectionHandler L E C R W s = Some s' \<and> rejectsWith W s s' e)))"
proof (intro conjI impI)
  from handler_outcome [OF assms, of L C W]
  obtain s' where s': "connectionHandler L E C R W s = Some s'"
    "(\<exists>reason. rejectsWith W s s' reason) \<or>
     (\<exists>D parts. acceptsWith W s s' (infoLine C D @ concat (map (eventLine E D) parts)))"
    by blast
  then show "\<exists>s'. connectionHandler L E C R W s = Some s' \<and>
            ((\<exists>reason. rejectsWith W s s' reason) \<or>
             (\<exists>D parts. acceptsWith W s s' (infoLine C D @ concat (map (eventLine E D) parts)))) \<and>
            (\<forall>p. wsb_writer (wos_sb (ostr s)) = Some p \<longrightarrow>
               (\<forall>reason. rejectsWith W s s' reason \<longrightarrow> wsb_writer (wos_sb (ostr s')) = Some p) \<and>
               (\<forall>ls. acceptsWith W s s' ls \<longrightarrow> wsb_writer (wos_sb (ostr s')) = None))"
    using rejectsWith_attached acceptsWith_detached by blast
next
  assume a: "msg = CHR ''1'' # withNL bs @ tr \<and> list_all lineFree bs \<and> lineFree tr"
  let ?s1 = "is_close R (s\<lparr>rheap := h1, istr := ist1\<rparr>)"
  from decryptBlocks_first_failure [of L C bs "[]"]
  show "(list_all (verified L C) bs \<and>
             (\<exists>ps. list_all2 (\<lambda>b p. decryptBlock L C b = Inr p) bs ps \<and>
                   connectionHandler L E C R W s = Some (parseBody E C W ?s1 (concat ps)))) \<or>
            (\<exists>pre b post ps e. bs = pre @ b # post \<and>
                list_all2 (\<lambda>b p. decryptBlock L C b = Inr p) pre ps \<and>
                decryptBlock L C b = Inl e \<and>
                (\<exists>s'. connectionHandler L E C R W s = Some s' \<and> rejectsWith W s s' e))"
  proof
    assume "\<exists>ps. list_all2 (\<lambda>b p. decryptBlock L C b = Inr p) bs ps \<and>
         decryptBlocks L C bs [] = Inr ([] @ concat ps)"
    then obtain ps where ps: "list_all2 (\<lambda>b p. decryptBlock L C b = Inr p) bs ps" by blast
    from a handleRequest_encrypted_ok [OF _ _ ps, of tr E W ?s1]
    have "handleRequest L E C W ?s1 msg = parseBody E C W ?s1 (concat ps)" by simp
    with connectionHandler_read [OF assms, of L C W]
    have "connectionHandler L E C R W s = Some (parseBody E C W ?s1 (concat ps))" by simp
    with ps verified_all [OF ps] show ?thesis by blast
  next
    assume "\<exists>pre b post ps e. bs = pre @ b # post \<and>
         list_all2 (\<lambda>b p. decryptBlock L C b = Inr p) pre ps \<and>
         decryptBlock L C b = Inl e \<and> decryptBlocks L C bs [] = Inl e"
    then obtain pre b post ps e where f: "bs = pre @ b # post"
      "list_all2 (\<lambda>b p. decryptBlock L C b = Inr p) pre ps"
      "decryptBlock L C b = Inl e" "decryptBlocks L C bs [] = Inl e" by blast
    from a handleRequest_encrypted_fail [OF _ _ f(4), of tr E W ?s1]
    have "handleRequest L E C W ?s1 msg = reject W ?s1 (''Error : '' @ e @ [NL])" by simp
    from handler_rejects [OF assms this] f(1,2,3) show ?thesis by blast
  qed
qed

theorem frame_only_after_verification_witness:
  "\<not> list_all (verified sampleLib keyConfig) [''c8c4a5aae6789abcdf012222a'', ''effac6789abcdf0122e1a''] \<and>
   (\<exists>s' e. connectionHandler sampleLib samplePlatform keyConfig MemoryReader bufferWriter
              (sampleState sampleEncrypted) = Some s' \<and>
           rejectsWith bufferWriter (sampleState sampleEncrypted) s' e \<and>
           wsb_writer (wos_sb (ostr s')) = Some 0)"
proof -
  let ?bs = "[''c8c4a5aae6789abcdf012222a'', ''effac6789abcdf0122e1a'']"
  let ?s = "sampleState sampleEncrypted"
  have nv: "\<not> list_all (verified sampleLib keyConfig) ?bs"
    using sample_block_bad by (simp add: verified_def)
  have msg: "sampleEncrypted = CHR ''1'' # withNL ?bs @ []"
    by (simp add: sampleEncrypted_def withNL_def)
  have lf: "list_all lineFree ?bs" "lineFree []"
    by (simp_all add: lineFree_def)
  have att: "wsb_writer (wos_sb (ostr ?s)) = Some 0"
    by (simp add: sampleState_def)
  note t = frame_only_after_verification [OF sample_read [OF sampleEncrypted_chars],
      where L = sampleLib and C = keyConfig and W = bufferWriter and bs = ?bs and tr = "[]"]
  from t msg lf nv
  obtain s' e where r: "connectionHandler sampleLib samplePlatform keyConfig MemoryReader bufferWriter ?s = Some s'"
    "rejectsWith bufferWriter ?s s' e"
    by blast
  from t att r have "wsb_writer (wos_sb (ostr s')) = Some 0"
    by (metis option.inject)
  with r nv show ?thesis by blast
qed




text \<open>
  Claim C3, as amended.  An event line that begins with a field of hexadecimal digits
  whose value fits the 64-bit \<open>time_t\<close>, followed by a space, gets that value as its time
  and the text after the space as its description.  An event line without any space gets
  the time of the clock, read when the line is processed, and keeps its whole text.
\<close>

theorem event_timestamp:
  "(ds \<noteq> [] \<and> list_all (\<lambda>c. hexDigit c \<noteq> None) ds \<and> int (hexValue 0 ds) \<le> TIME_MAX \<longrightarrow>
      hasHexTimestamp (ds @ CHR '' '' # desc) \<and>
      stampPart E k (t0, ds @ CHR '' '' # desc) = (int (hexValue 0 ds), desc)) \<and>
   (CHR '' '' \<notin> set line \<longrightarrow>
      \<not> hasHexTimestamp line \<and> stampPart E k (t0, line) = (time_NULL E k, line))"
  using stampPart_timestamp stampPart_no_space by blast

theorem event_timestamp_witness:
  "stampPart samplePlatform 0 (0, ''6553f100 up'') = (1700000000, ''up'') \<and>
   stampPart samplePlatform 1 (0, ''down'') = (1700000001, ''down'')"
proof -
  have "stampPart samplePlatform 0 (0, ''6553f100'' @ CHR '' '' # ''up'') =
      (int (hexValue 0 ''6553f100''), ''up'')"
    using event_timestamp [of "''6553f100''" "''up''" samplePlatform 0 0]
    by (simp add: hexDigit_def TIME_MAX_def)
  moreover have "stampPart samplePlatform 1 (0, ''down'') = (time_NULL samplePlatform 1, ''down'')"
    using event_timestamp [of _ _ samplePlatform 1 0 "''down''"] by simp
  ultimately show ?thesis
    by (simp add: hexDigit_def samplePlatform_def)
qed

theorem unparseable_prefix_counterexample:
  "\<not> hasHexTimestamp ''hello world'' \<and>
   stampPart samplePlatform 0 (0, ''hello world'') = (0, ''world'') \<and>
   time_NULL samplePlatform 0 = 1700000000"
proof -
  have "\<not> hasHexTimestamp ''hello world''"
    by (simp add: hasHexTimestamp_def find_first_of_def hexDigit_def)
  moreover have "time_NULL samplePlatform 0 = 1700000000"
    by (simp add: samplePlatform_def)
  ultimately show ?thesis
    using sample_stamps(3) by simp
qed




text \<open>
  Claim C4.  A \<open>StreamServerWrapper\<close> built with the queue \<open>cs\<close> of \<open>N\<close> streams and no next
  server returns, in its first \<open>N\<close> calls of \<open>accept\<close>, the streams of the queue, each once
  and in the order of the queue, so that none of these calls fails; the call after them
  raises \<open>NoStreamsLeftException\<close>, and so does every later one.  With a next server, the
  first \<open>N\<close> calls are the same and every later call is a call of the next server's
  \<open>accept\<close>, whose result it returns.
\<close>

theorem accept_fifo:
  "acceptMany nextAccept (length cs + Suc n) \<lparr>streams = cs, nextServer = None\<rparr> =
     (map Inr cs @ replicate (Suc n) (Inl NoStreamsLeftException),
      \<lparr>streams = [], nextServer = None\<rparr>) \<and>
   acceptMany nextAccept (length cs + n) \<lparr>streams = cs, nextServer = Some s\<rparr> =
     (map Inr cs @ fst (callMany nextAccept n s),
      \<lparr>streams = [], nextServer = Some (snd (callMany nextAccept n s))\<rparr>) \<and>
   accept nextAccept \<lparr>streams = [], nextServer = Some s\<rparr> =
     (fst (nextAccept s), \<lparr>streams = [], nextServer = Some (snd (nextAccept s))\<rparr>)"
proof (intro conjI)
  show "acceptMany nextAccept (length cs + Suc n) \<lparr>streams = cs, nextServer = None\<rparr> =
     (map Inr cs @ replicate (Suc n) (Inl NoStreamsLeftException),
      \<lparr>streams = [], nextServer = None\<rparr>)"
    unfolding acceptMany_queue [of nextAccept cs "Suc n" None] acceptMany_empty_none
    by simp
  show "acceptMany nextAccept (length cs + n) \<lparr>streams = cs, nextServer = Some s\<rparr> =
     (map Inr cs @ fst (callMany nextAccept n s),
      \<lparr>streams = [], nextServer = Some (snd (callMany nextAccept n s))\<rparr>)"
    unfolding acceptMany_queue [of nextAccept cs n "Some s"] acceptMany_empty_next
    by simp
  show "accept nextAccept \<lparr>streams = [], nextServer = Some s\<rparr> =
     (fst (nextAccept s), \<lparr>streams = [], nextServer = Some (snd (nextAccept s))\<rparr>)"
    by (simp add: accept_def case_prod_unfold)
qed

theorem accept_fifo_witness:
  "acceptMany (\<lambda>s. (Inr s, Suc s)) 3 \<lparr>streams = [1, 2 :: nat], nextServer = (None :: nat option)\<rparr> =
     ([Inr 1, Inr 2, Inl NoStreamsLeftException], \<lparr>streams = [], nextServer = None\<rparr>) \<and>
   acceptMany (\<lambda>s. (Inr s, Suc s)) 4 \<lparr>streams = [1, 2 :: nat], nextServer = Some (7 :: nat)\<rparr> =
     ([Inr 1, Inr 2, Inr 7, Inr 8], \<lparr>streams = [], nextServer = Some 9\<rparr>)"
  using accept_fifo [where nextAccept = "\<lambda>s. (Inr s, Suc s)" and cs = "[1, 2 :: nat]" and n = 0]
    accept_fifo [where nextAccept = "\<lambda>s. (Inr s, Suc s)" and cs = "[1, 2 :: nat]" and n = 2 and s = "7 :: nat"]
  by (simp add: numeral_2_eq_2 numeral_3_eq_3 eval_nat_numeral)




end
